theory Spec2Isabelle
  imports Complex_Main "HOL-Library.Word"
begin

section \<open>Data model\<close>

text \<open>
  The dithering module works on JavaScript arrays of numbers. A pixel is the
  three-element array \<open>[r, g, b]\<close>, a grid is \<open>number[][][]\<close> indexed \<open>[y][x]\<close>, the
  alpha mask \<open>number[][]\<close>, the palette an array of pixels.

  JavaScript numbers are modelled as reals: sums, products and quotients are exact.
  Rounding of doubles, \<open>NaN\<close> and the infinities are outside the model; the only
  infinity the code names, the initial \<open>minDistance = Infinity\<close>, is the value
  \<open>None\<close> of an option. Coordinates and lengths are naturals, kernel offsets integers.
\<close>

type_synonym pixel = "real \<times> real \<times> real"
type_synonym grid = "pixel list list"
type_synonym alpha = "real list list"

datatype js_error = TypeError

definition ch0 :: "pixel \<Rightarrow> real" where "ch0 p = fst p"
definition ch1 :: "pixel \<Rightarrow> real" where "ch1 p = fst (snd p)"
definition ch2 :: "pixel \<Rightarrow> real" where "ch2 p = snd (snd p)"

text \<open>\<open>clamp(value, min, max) = Math.min(Math.max(value, min), max)\<close>\<close>

definition clamp :: "real \<Rightarrow> real \<Rightarrow> real \<Rightarrow> real" where
  "clamp v lo hi = min (max v lo) hi"

section \<open>Colour matching (utils.js)\<close>

subsection \<open>sRGB to Lab\<close>

definition srgbToLinear :: "real \<Rightarrow> real" where
  "srgbToLinear c =
     (let cs = c / 255
      in if cs \<le> 0.04045 then cs / 12.92 else ((cs + 0.055) / 1.055) powr 2.4)"

definition rgbToXyz :: "real \<Rightarrow> real \<Rightarrow> real \<Rightarrow> pixel" where
  "rgbToXyz r g b =
     (let R = srgbToLinear r; G = srgbToLinear g; B = srgbToLinear b;
          x = R * 0.4124564 + G * 0.3575761 + B * 0.1804375;
          y = R * 0.2126729 + G * 0.7151522 + B * 0.072175;
          z = R * 0.0193339 + G * 0.119192 + B * 0.9503041
      in (x, y, z))"

definition xyzToLab :: "real \<Rightarrow> real \<Rightarrow> real \<Rightarrow> pixel" where
  "xyzToLab x y z =
     (let Xn = 0.95047; Yn = 1.0; Zn = 1.08883;
          xr = x / Xn; yr = y / Yn; zr = z / Zn;
          eps = 216 / 24389; k = 24389 / 27;
          fx = (if xr > eps then root 3 xr else (k * xr + 16) / 116);
          fy = (if yr > eps then root 3 yr else (k * yr + 16) / 116);
          fz = (if zr > eps then root 3 zr else (k * zr + 16) / 116);
          L = 116 * fy - 16;
          a = 500 * (fx - fy);
          b = 200 * (fy - fz)
      in (L, a, b))"

definition rgbToLab :: "pixel \<Rightarrow> pixel" where
  "rgbToLab rgb = (case rgbToXyz (ch0 rgb) (ch1 rgb) (ch2 rgb) of (x, y, z) \<Rightarrow> xyzToLab x y z)"

definition deltaE76 :: "pixel \<Rightarrow> pixel \<Rightarrow> real" where
  "deltaE76 lab1 lab2 =
     (let dL = ch0 lab1 - ch0 lab2; da = ch1 lab1 - ch1 lab2; db = ch2 lab1 - ch2 lab2
      in dL * dL + da * da + db * db)"

subsection \<open>The three distances\<close>

text \<open>Mode \<open>"rgb"\<close>: squared Euclidean distance of the raw channels.\<close>

definition rgbDistance :: "pixel \<Rightarrow> pixel \<Rightarrow> real" where
  "rgbDistance pixel color =
     (let dr = ch0 color - ch0 pixel; dg = ch1 color - ch1 pixel; db = ch2 color - ch2 pixel
      in dr * dr + dg * dg + db * db)"

text \<open>
  Mode \<open>"compuphase"\<close> uses the 32-bit integer operators of JavaScript. \<open>v | 0\<close> is
  ToInt32: truncation towards zero, then wrap-around to a signed 32-bit value.
  \<open>a >> n\<close> applies ToInt32 to \<open>a\<close> and shifts arithmetically.
\<close>

definition toInt32 :: "real \<Rightarrow> int" where
  "toInt32 v = sint (word_of_int (if 0 \<le> v then \<lfloor>v\<rfloor> else \<lceil>v\<rceil>) :: 32 word)"

definition sar :: "int \<Rightarrow> nat \<Rightarrow> int" where
  "sar a n = sint (signed_drop_bit n (word_of_int a :: 32 word))"

definition compuphaseDistance :: "pixel \<Rightarrow> pixel \<Rightarrow> real" where
  "compuphaseDistance pixel color =
     (let pr = toInt32 (ch0 pixel); pg = toInt32 (ch1 pixel); pb = toInt32 (ch2 pixel);
          r = toInt32 (ch0 color); g = toInt32 (ch1 color); b = toInt32 (ch2 color);
          rmean = sar (r + pr) 1;
          rdiff = r - pr; gdiff = g - pg; bdiff = b - pb;
          x = sar ((512 + rmean) * rdiff * rdiff) 8;
          y = 4 * gdiff * gdiff;
          z = sar ((767 - rmean) * bdiff * bdiff) 8
      in real_of_int (x + y + z))"

text \<open>
  The redmean formula in the words of the specification, over integer channel values
  \<open>(pr, pg, pb)\<close> of the pixel and \<open>(r, g, b)\<close> of the candidate; every \<open>/\<close> is the
  integer quotient.
\<close>

definition redmean_formula :: "int \<Rightarrow> int \<Rightarrow> int \<Rightarrow> int \<Rightarrow> int \<Rightarrow> int \<Rightarrow> int" where
  "redmean_formula pr pg pb r g b =
     (let rmean = (pr + r) div 2; dr = r - pr; dg = g - pg; db = b - pb
      in (512 + rmean) * dr\<^sup>2 div 256 + 4 * dg\<^sup>2 + (767 - rmean) * db\<^sup>2 div 256)"

definition redmean_distance :: "pixel \<Rightarrow> pixel \<Rightarrow> real" where
  "redmean_distance pixel color =
     real_of_int (redmean_formula \<lfloor>ch0 pixel\<rfloor> \<lfloor>ch1 pixel\<rfloor> \<lfloor>ch2 pixel\<rfloor>
                    \<lfloor>ch0 color\<rfloor> \<lfloor>ch1 color\<rfloor> \<lfloor>ch2 color\<rfloor>)"

text \<open>Mode \<open>"lab"\<close> (the default): squared distance of the Lab coordinates.\<close>

definition labDistance :: "pixel \<Rightarrow> pixel \<Rightarrow> real" where
  "labDistance pixel color = deltaE76 (rgbToLab pixel) (rgbToLab color)"

subsection \<open>The search loops\<close>

text \<open>\<open>d < minDistance\<close>, where \<open>minDistance\<close> starts as \<open>Infinity\<close> (\<open>None\<close>).\<close>

definition less_inf :: "real \<Rightarrow> real option \<Rightarrow> bool" where
  "less_inf d m = (case m of None \<Rightarrow> True | Some v \<Rightarrow> d < v)"

text \<open>
  The loop of the \<open>rgb\<close> and \<open>compuphase\<close> branches: \<open>for (const color of palette)\<close>
  keeps the pair \<open>(minDistance, closestColor)\<close>, with \<open>closestColor = palette[0]\<close> at
  the start. The palette elements are of any type \<open>'c\<close>: colour values in the
  value-level model, references into a store of arrays in the store-level model below.
\<close>

definition closest_step :: "('c \<Rightarrow> real) \<Rightarrow> 'c \<Rightarrow> real option \<times> 'c \<Rightarrow> real option \<times> 'c" where
  "closest_step dst color st =
     (case st of (minDistance, closestColor) \<Rightarrow>
        (let d = dst color
         in if less_inf d minDistance then (Some d, color) else (minDistance, closestColor)))"

definition closestColor :: "('c \<Rightarrow> real) \<Rightarrow> 'c list \<Rightarrow> 'c" where
  "closestColor dst palette = snd (fold (closest_step dst) palette (None, hd palette))"

text \<open>
  The loop of the \<open>lab\<close> branch: \<open>for (let i = 0; i < labs.length; i++)\<close> keeps
  \<open>(minD, bestIdx)\<close>, with \<open>bestIdx = 0\<close> at the start.
\<close>

definition best_step :: "(nat \<Rightarrow> real) \<Rightarrow> nat \<Rightarrow> real option \<times> nat \<Rightarrow> real option \<times> nat" where
  "best_step dst i st =
     (case st of (minD, bestIdx) \<Rightarrow>
        (let d = dst i
         in if less_inf d minD then (Some d, i) else (minD, bestIdx)))"

definition bestIdx :: "pixel \<Rightarrow> pixel list \<Rightarrow> nat" where
  "bestIdx plab labs =
     snd (fold (best_step (\<lambda>i. deltaE76 plab (labs ! i))) [0..<length labs] (None, 0))"

datatype mode = Rgb | Lab | Compuphase

subsection \<open>findClosestColorInPalette on values\<close>

text \<open>
  The Lab coordinates of the palette are memoised in a \<open>WeakMap\<close> keyed by the palette
  array. The callers build a new palette array for every run and never write into it,
  so the memoised list is always \<open>palette.map(rgbToLab)\<close>; the model uses that value.
  The result \<open>[...c]\<close> is, as a value, the colour \<open>c\<close>. The guard \<open>!palette\<close> sends an
  absent palette the way of the empty one; both are the empty list here.

  The repository holds a second, older copy of utils.js, whose function has neither
  the \<open>mode\<close> argument nor the guard; the function modelled is the one with the three
  modes.
\<close>

definition findClosestColorInPalette :: "pixel \<Rightarrow> pixel list \<Rightarrow> mode \<Rightarrow> pixel" where
  "findClosestColorInPalette pixel palette mode =
     (if palette = [] then (0, 0, 0)
      else case mode of
        Rgb \<Rightarrow> closestColor (rgbDistance pixel) palette
      | Compuphase \<Rightarrow> closestColor (compuphaseDistance pixel) palette
      | Lab \<Rightarrow> (let labs = map rgbToLab palette; plab = rgbToLab pixel
                in palette ! bestIdx plab labs))"

subsection \<open>findClosestColorInPalette on a store of arrays\<close>

text \<open>
  To speak about aliasing, colour arrays live in a store: a list of cells, an array
  being the index of its cell. The palette is then a list of references. An array
  literal (\<open>[0, 0, 0]\<close>, \<open>[...c]\<close>) allocates the next cell.
\<close>

type_synonym store = "pixel list"
type_synonym ref = nat

definition alloc :: "store \<Rightarrow> pixel \<Rightarrow> store \<times> ref" where
  "alloc s v = (s @ [v], length s)"

definition findClosestColorInPalette_ref :: "store \<Rightarrow> pixel \<Rightarrow> ref list \<Rightarrow> mode \<Rightarrow> store \<times> ref" where
  "findClosestColorInPalette_ref s pixel palette mode =
     (if palette = [] then alloc s (0, 0, 0)
      else case mode of
        Rgb \<Rightarrow> alloc s (s ! closestColor (\<lambda>c. rgbDistance pixel (s ! c)) palette)
      | Compuphase \<Rightarrow> alloc s (s ! closestColor (\<lambda>c. compuphaseDistance pixel (s ! c)) palette)
      | Lab \<Rightarrow> (let labs = map (\<lambda>c. rgbToLab (s ! c)) palette; plab = rgbToLab pixel
                in alloc s (s ! (palette ! bestIdx plab labs))))"

text \<open>The distance that a mode compares, as one function of the mode.\<close>

definition modeDistance :: "mode \<Rightarrow> pixel \<Rightarrow> pixel \<Rightarrow> real" where
  "modeDistance mode pixel color =
     (case mode of Rgb \<Rightarrow> rgbDistance pixel color
      | Compuphase \<Rightarrow> compuphaseDistance pixel color
      | Lab \<Rightarrow> labDistance pixel color)"

text \<open>
  \<open>first_min d n i\<close>: among the indices below \<open>n\<close>, \<open>i\<close> is the smallest one at which
  \<open>d\<close> is minimal.
\<close>

definition first_min :: "(nat \<Rightarrow> real) \<Rightarrow> nat \<Rightarrow> nat \<Rightarrow> bool" where
  "first_min d n i = (i < n \<and> (\<forall>j<n. d i \<le> d j) \<and> (\<forall>j<i. d i < d j))"

section \<open>Dithering (dithering.js)\<close>

subsection \<open>Grids\<close>

text \<open>
  \<open>out[y][x]\<close> and \<open>out[y][x] = p\<close>. Every access of the code is at a position inside
  \<open>h \<times> w\<close>, where \<open>h = rgbChannels.length\<close> and \<open>w = rgbChannels[0].length\<close>; the
  model describes the code on rectangular grids with a parallel alpha mask
  (\<open>wellformed\<close>), which is what \<open>imageDataToArrays\<close> builds. The initial
  \<open>rgbChannels.map((row) => row.map((p) => [...p]))\<close> is a deep copy: as a value, the
  input grid.
\<close>

definition getPx :: "grid \<Rightarrow> nat \<Rightarrow> nat \<Rightarrow> pixel" where
  "getPx out y x = out ! y ! x"

definition setPx :: "grid \<Rightarrow> nat \<Rightarrow> nat \<Rightarrow> pixel \<Rightarrow> grid" where
  "setPx out y x p = out[y := (out ! y)[x := p]]"

definition rectangular :: "'a list list \<Rightarrow> nat \<Rightarrow> nat \<Rightarrow> bool" where
  "rectangular g h wid = (length g = h \<and> (\<forall>row \<in> set g. length row = wid))"

definition wellformed :: "grid \<Rightarrow> alpha \<Rightarrow> bool" where
  "wellformed rgbChannels alphaChannel =
     (rgbChannels \<noteq> [] \<and>
      rectangular rgbChannels (length rgbChannels) (length (hd rgbChannels)) \<and>
      rectangular alphaChannel (length rgbChannels) (length (hd rgbChannels)))"

definition in_range :: "pixel \<Rightarrow> bool" where
  "in_range p = (0 \<le> ch0 p \<and> ch0 p \<le> 255 \<and> 0 \<le> ch1 p \<and> ch1 p \<le> 255 \<and> 0 \<le> ch2 p \<and> ch2 p \<le> 255)"

definition grid_in_range :: "grid \<Rightarrow> bool" where
  "grid_in_range g = (\<forall>row \<in> set g. \<forall>p \<in> set row. in_range p)"

definition palette_in_range :: "pixel list \<Rightarrow> bool" where
  "palette_in_range palette = (\<forall>c \<in> set palette. in_range c)"

subsection \<open>Rows and the progress callback\<close>

text \<open>
  The outer loop \<open>for (let y = 0; y < h; y++)\<close> runs the row body and then, when a
  callback was given and the row is a reporting row, calls
  \<open>progressCallback((y + 1) / h)\<close>. The calls are recorded in order. After the loop
  \<open>if (progressCallback) progressCallback(1)\<close>. \<open>progressCallback\<close> is \<open>True\<close> when
  a callback was passed.
\<close>

definition report_step ::
  "(nat \<Rightarrow> 's \<Rightarrow> 's) \<Rightarrow> (nat \<Rightarrow> bool) \<Rightarrow> bool \<Rightarrow> nat \<Rightarrow> nat \<Rightarrow> 's \<times> real list \<Rightarrow> 's \<times> real list" where
  "report_step row report progressCallback h y st =
     (case st of (s, calls) \<Rightarrow>
        (row y s, if progressCallback \<and> report y then calls @ [real (y + 1) / real h] else calls))"

definition rows_loop ::
  "(nat \<Rightarrow> 's \<Rightarrow> 's) \<Rightarrow> (nat \<Rightarrow> bool) \<Rightarrow> bool \<Rightarrow> nat \<Rightarrow> 's \<Rightarrow> 's \<times> real list" where
  "rows_loop row report progressCallback h s =
     fold (report_step row report progressCallback h) [0..<h] (s, [])"

definition final_call :: "bool \<Rightarrow> real list \<Rightarrow> real list" where
  "final_call progressCallback calls = (if progressCallback then calls @ [1] else calls)"

text \<open>
  The inner loop \<open>for (let x = xStart; x !== xEnd; x += xStep)\<close> with
  \<open>(xStart, xEnd, xStep) = (0, w, 1)\<close> or \<open>(w - 1, -1, -1)\<close>: the columns in the order
  of the visit.
\<close>

definition columns :: "bool \<Rightarrow> nat \<Rightarrow> nat list" where
  "columns leftToRight wid = (if leftToRight then [0..<wid] else rev [0..<wid])"

definition leftToRight :: "bool \<Rightarrow> nat \<Rightarrow> bool" where
  "leftToRight serpentine y = (if serpentine then y mod 2 = 0 else True)"

subsection \<open>Error diffusion\<close>

record neighbor =
  dx :: int
  dy :: int
  w :: real

text \<open>The body of \<open>for (const n of neigh)\<close>, the same in both diffusion functions.\<close>

definition diffuse :: "alpha \<Rightarrow> real \<Rightarrow> nat \<Rightarrow> nat \<Rightarrow> pixel \<Rightarrow> nat \<Rightarrow> nat \<Rightarrow> neighbor \<Rightarrow> grid \<Rightarrow> grid" where
  "diffuse alphaChannel alphaThreshold wid h err y x n out =
     (let nx = int x + dx n; ny = int y + dy n
      in if nx < 0 \<or> nx \<ge> int wid \<or> ny < 0 \<or> ny \<ge> int h then out
         else if alphaChannel ! nat ny ! nat nx < alphaThreshold then out
         else (let p = getPx out (nat ny) (nat nx)
               in setPx out (nat ny) (nat nx)
                    (clamp (ch0 p + ch0 err * w n) 0 255,
                     clamp (ch1 p + ch1 err * w n) 0 255,
                     clamp (ch2 p + ch2 err * w n) 0 255)))"

text \<open>applyFloydSteinbergDithering: its two literal neighbour tables.\<close>

definition fsRight :: "neighbor list" where
  "fsRight = [\<lparr>dx = 1, dy = 0, w = 7 / 16\<rparr>, \<lparr>dx = -1, dy = 1, w = 3 / 16\<rparr>,
              \<lparr>dx = 0, dy = 1, w = 5 / 16\<rparr>, \<lparr>dx = 1, dy = 1, w = 1 / 16\<rparr>]"

definition fsLeft :: "neighbor list" where
  "fsLeft = [\<lparr>dx = -1, dy = 0, w = 7 / 16\<rparr>, \<lparr>dx = 1, dy = 1, w = 3 / 16\<rparr>,
             \<lparr>dx = 0, dy = 1, w = 5 / 16\<rparr>, \<lparr>dx = -1, dy = 1, w = 1 / 16\<rparr>]"

definition fs_pixel ::
  "alpha \<Rightarrow> pixel list \<Rightarrow> real \<Rightarrow> real \<Rightarrow> nat \<Rightarrow> nat \<Rightarrow> bool \<Rightarrow> nat \<Rightarrow> nat \<Rightarrow> grid \<Rightarrow> grid" where
  "fs_pixel alphaChannel palette strength alphaThreshold wid h ltr y x out =
     (if alphaChannel ! y ! x < alphaThreshold then out
      else (let oldP = getPx out y x;
                newP = findClosestColorInPalette oldP palette Lab;
                err = ((ch0 oldP - ch0 newP) * strength,
                       (ch1 oldP - ch1 newP) * strength,
                       (ch2 oldP - ch2 newP) * strength);
                out1 = setPx out y x newP;
                neigh = (if ltr then fsRight else fsLeft)
            in fold (diffuse alphaChannel alphaThreshold wid h err y x) neigh out1))"

definition fs_row ::
  "alpha \<Rightarrow> pixel list \<Rightarrow> real \<Rightarrow> real \<Rightarrow> bool \<Rightarrow> nat \<Rightarrow> nat \<Rightarrow> nat \<Rightarrow> grid \<Rightarrow> grid" where
  "fs_row alphaChannel palette strength alphaThreshold serpentine wid h y out =
     (let ltr = leftToRight serpentine y
      in fold (fs_pixel alphaChannel palette strength alphaThreshold wid h ltr y) (columns ltr wid) out)"

definition applyFloydSteinbergDithering ::
  "grid \<Rightarrow> alpha \<Rightarrow> pixel list \<Rightarrow> real \<Rightarrow> real \<Rightarrow> bool \<Rightarrow> bool \<Rightarrow> js_error + grid \<times> real list" where
  "applyFloydSteinbergDithering rgbChannels alphaChannel palette strength alphaThreshold
       progressCallback serpentine =
     (if rgbChannels = [] then Inl TypeError
      else (let h = length rgbChannels; wid = length (hd rgbChannels);
                reportEvery = max 1 (h div 50)
            in case rows_loop (fs_row alphaChannel palette strength alphaThreshold serpentine wid h)
                      (\<lambda>y. y mod reportEvery = 0) progressCallback h rgbChannels
               of (out, calls) \<Rightarrow> Inr (out, final_call progressCallback calls)))"

text \<open>
  The Floyd-Steinberg step in the words of the specification: the weight of an offset
  \<open>(\<Delta>x, \<Delta>y)\<close> of the left-to-right kernel (over 16), the error of a pixel, and a
  pixel after it received a share of the error, each channel brought into \<open>[0,255]\<close>
  (written with \<open>min\<close> and \<open>max\<close>, not with the code's \<open>clamp\<close>).
\<close>

definition fs_weight :: "int \<Rightarrow> int \<Rightarrow> real option" where
  "fs_weight ddx ddy =
     (if (ddx, ddy) = (1, 0) then Some 7
      else if (ddx, ddy) = (-1, 1) then Some 3
      else if (ddx, ddy) = (0, 1) then Some 5
      else if (ddx, ddy) = (1, 1) then Some 1
      else None)"

definition quant_error :: "pixel \<Rightarrow> pixel \<Rightarrow> real \<Rightarrow> pixel" where
  "quant_error original chosen strength =
     ((ch0 original - ch0 chosen) * strength,
      (ch1 original - ch1 chosen) * strength,
      (ch2 original - ch2 chosen) * strength)"

definition receive :: "pixel \<Rightarrow> pixel \<Rightarrow> real \<Rightarrow> pixel" where
  "receive p err share =
     (min (max (ch0 p + ch0 err * share) 0) 255,
      min (max (ch1 p + ch1 err * share) 0) 255,
      min (max (ch2 p + ch2 err * share) 0) 255)"

text \<open>errorDiffuse: the kernel tables and the denominator are arguments.\<close>

definition ed_pixel ::
  "alpha \<Rightarrow> pixel list \<Rightarrow> neighbor list \<Rightarrow> real \<Rightarrow> real \<Rightarrow> real \<Rightarrow> nat \<Rightarrow> nat \<Rightarrow> nat \<Rightarrow> nat \<Rightarrow> grid \<Rightarrow> grid" where
  "ed_pixel alphaChannel palette neigh denom strength alphaThreshold wid h y x out =
     (if alphaChannel ! y ! x < alphaThreshold then out
      else (let oldP = getPx out y x;
                newP = findClosestColorInPalette oldP palette Lab;
                err = (((ch0 oldP - ch0 newP) * strength) / denom,
                       ((ch1 oldP - ch1 newP) * strength) / denom,
                       ((ch2 oldP - ch2 newP) * strength) / denom);
                out1 = setPx out y x newP
            in fold (diffuse alphaChannel alphaThreshold wid h err y x) neigh out1))"

definition ed_row ::
  "alpha \<Rightarrow> pixel list \<Rightarrow> neighbor list \<Rightarrow> neighbor list \<Rightarrow> real \<Rightarrow> real \<Rightarrow> real \<Rightarrow> bool \<Rightarrow> nat \<Rightarrow> nat \<Rightarrow> nat \<Rightarrow> grid \<Rightarrow> grid" where
  "ed_row alphaChannel palette weightsRight weightsLeft denom strength alphaThreshold serpentine wid h y out =
     (let ltr = leftToRight serpentine y;
          neigh = (if ltr then weightsRight else weightsLeft)
      in fold (ed_pixel alphaChannel palette neigh denom strength alphaThreshold wid h y) (columns ltr wid) out)"

definition errorDiffuse ::
  "grid \<Rightarrow> alpha \<Rightarrow> pixel list \<Rightarrow> neighbor list \<Rightarrow> neighbor list \<Rightarrow> real \<Rightarrow> real \<Rightarrow> real \<Rightarrow> bool \<Rightarrow> bool
     \<Rightarrow> js_error + grid \<times> real list" where
  "errorDiffuse rgbChannels alphaChannel palette weightsRight weightsLeft denom strength alphaThreshold
       progressCallback serpentine =
     (if rgbChannels = [] then Inl TypeError
      else (let h = length rgbChannels; wid = length (hd rgbChannels);
                reportEvery = max 1 (h div 50)
            in case rows_loop
                      (ed_row alphaChannel palette weightsRight weightsLeft denom strength alphaThreshold
                         serpentine wid h)
                      (\<lambda>y. y mod reportEvery = 0) progressCallback h rgbChannels
               of (out, calls) \<Rightarrow> Inr (out, final_call progressCallback calls)))"

text \<open>\<open>right.map((n) => ({ dx: -n.dx, dy: n.dy, w: n.w }))\<close>\<close>

definition mirror :: "neighbor \<Rightarrow> neighbor" where
  "mirror n = \<lparr>dx = - dx n, dy = dy n, w = w n\<rparr>"

definition jarvisRight :: "neighbor list" where
  "jarvisRight =
     [\<lparr>dx = 1, dy = 0, w = 7\<rparr>, \<lparr>dx = 2, dy = 0, w = 5\<rparr>,
      \<lparr>dx = -2, dy = 1, w = 3\<rparr>, \<lparr>dx = -1, dy = 1, w = 5\<rparr>, \<lparr>dx = 0, dy = 1, w = 7\<rparr>,
      \<lparr>dx = 1, dy = 1, w = 5\<rparr>, \<lparr>dx = 2, dy = 1, w = 3\<rparr>,
      \<lparr>dx = -2, dy = 2, w = 1\<rparr>, \<lparr>dx = -1, dy = 2, w = 3\<rparr>, \<lparr>dx = 0, dy = 2, w = 5\<rparr>,
      \<lparr>dx = 1, dy = 2, w = 3\<rparr>, \<lparr>dx = 2, dy = 2, w = 1\<rparr>]"

definition stuckiRight :: "neighbor list" where
  "stuckiRight =
     [\<lparr>dx = 1, dy = 0, w = 8\<rparr>, \<lparr>dx = 2, dy = 0, w = 4\<rparr>,
      \<lparr>dx = -2, dy = 1, w = 2\<rparr>, \<lparr>dx = -1, dy = 1, w = 4\<rparr>, \<lparr>dx = 0, dy = 1, w = 8\<rparr>,
      \<lparr>dx = 1, dy = 1, w = 4\<rparr>, \<lparr>dx = 2, dy = 1, w = 2\<rparr>,
      \<lparr>dx = -2, dy = 2, w = 1\<rparr>, \<lparr>dx = -1, dy = 2, w = 2\<rparr>, \<lparr>dx = 0, dy = 2, w = 4\<rparr>,
      \<lparr>dx = 1, dy = 2, w = 2\<rparr>, \<lparr>dx = 2, dy = 2, w = 1\<rparr>]"

definition burkesRight :: "neighbor list" where
  "burkesRight =
     [\<lparr>dx = 1, dy = 0, w = 8\<rparr>, \<lparr>dx = 2, dy = 0, w = 4\<rparr>,
      \<lparr>dx = -2, dy = 1, w = 2\<rparr>, \<lparr>dx = -1, dy = 1, w = 4\<rparr>, \<lparr>dx = 0, dy = 1, w = 8\<rparr>,
      \<lparr>dx = 1, dy = 1, w = 4\<rparr>, \<lparr>dx = 2, dy = 1, w = 2\<rparr>]"

definition atkinsonRight :: "neighbor list" where
  "atkinsonRight =
     [\<lparr>dx = 1, dy = 0, w = 1\<rparr>, \<lparr>dx = 2, dy = 0, w = 1\<rparr>,
      \<lparr>dx = -1, dy = 1, w = 1\<rparr>, \<lparr>dx = 0, dy = 1, w = 1\<rparr>, \<lparr>dx = 1, dy = 1, w = 1\<rparr>,
      \<lparr>dx = 0, dy = 2, w = 1\<rparr>]"

definition sierraLiteRight :: "neighbor list" where
  "sierraLiteRight =
     [\<lparr>dx = 1, dy = 0, w = 2\<rparr>, \<lparr>dx = -1, dy = 1, w = 1\<rparr>, \<lparr>dx = 0, dy = 1, w = 1\<rparr>]"

definition sierra2Right :: "neighbor list" where
  "sierra2Right =
     [\<lparr>dx = 1, dy = 0, w = 4\<rparr>, \<lparr>dx = 2, dy = 0, w = 3\<rparr>,
      \<lparr>dx = -2, dy = 1, w = 1\<rparr>, \<lparr>dx = -1, dy = 1, w = 2\<rparr>, \<lparr>dx = 0, dy = 1, w = 3\<rparr>,
      \<lparr>dx = 1, dy = 1, w = 2\<rparr>, \<lparr>dx = 2, dy = 1, w = 1\<rparr>]"

definition sierra3Right :: "neighbor list" where
  "sierra3Right =
     [\<lparr>dx = 1, dy = 0, w = 5\<rparr>, \<lparr>dx = 2, dy = 0, w = 3\<rparr>,
      \<lparr>dx = -2, dy = 1, w = 2\<rparr>, \<lparr>dx = -1, dy = 1, w = 4\<rparr>, \<lparr>dx = 0, dy = 1, w = 5\<rparr>,
      \<lparr>dx = 1, dy = 1, w = 4\<rparr>, \<lparr>dx = 2, dy = 1, w = 2\<rparr>,
      \<lparr>dx = -1, dy = 2, w = 2\<rparr>, \<lparr>dx = 0, dy = 2, w = 3\<rparr>, \<lparr>dx = 1, dy = 2, w = 2\<rparr>]"

text \<open>
  A kernel points forward for a scan direction when every offset leads to a later row, or
  to a later column of the same row: the targets are pixels the scan has not visited yet.
\<close>

definition forward_right :: "neighbor list \<Rightarrow> bool" where
  "forward_right K = (\<forall>n \<in> set K. 0 < dy n \<or> (dy n = 0 \<and> 0 < dx n))"

definition forward_left :: "neighbor list \<Rightarrow> bool" where
  "forward_left K = (\<forall>n \<in> set K. 0 < dy n \<or> (dy n = 0 \<and> dx n < 0))"

definition applyJarvisDithering ::
  "grid \<Rightarrow> alpha \<Rightarrow> pixel list \<Rightarrow> real \<Rightarrow> real \<Rightarrow> bool \<Rightarrow> bool \<Rightarrow> js_error + grid \<times> real list" where
  "applyJarvisDithering rgbChannels alphaChannel palette strength alphaThreshold progressCallback serpentine =
     errorDiffuse rgbChannels alphaChannel palette jarvisRight (map mirror jarvisRight) 48
       strength alphaThreshold progressCallback serpentine"

definition applyStuckiDithering ::
  "grid \<Rightarrow> alpha \<Rightarrow> pixel list \<Rightarrow> real \<Rightarrow> real \<Rightarrow> bool \<Rightarrow> bool \<Rightarrow> js_error + grid \<times> real list" where
  "applyStuckiDithering rgbChannels alphaChannel palette strength alphaThreshold progressCallback serpentine =
     errorDiffuse rgbChannels alphaChannel palette stuckiRight (map mirror stuckiRight) 42
       strength alphaThreshold progressCallback serpentine"

definition applyBurkesDithering ::
  "grid \<Rightarrow> alpha \<Rightarrow> pixel list \<Rightarrow> real \<Rightarrow> real \<Rightarrow> bool \<Rightarrow> bool \<Rightarrow> js_error + grid \<times> real list" where
  "applyBurkesDithering rgbChannels alphaChannel palette strength alphaThreshold progressCallback serpentine =
     errorDiffuse rgbChannels alphaChannel palette burkesRight (map mirror burkesRight) 32
       strength alphaThreshold progressCallback serpentine"

definition applyAtkinsonDithering ::
  "grid \<Rightarrow> alpha \<Rightarrow> pixel list \<Rightarrow> real \<Rightarrow> real \<Rightarrow> bool \<Rightarrow> bool \<Rightarrow> js_error + grid \<times> real list" where
  "applyAtkinsonDithering rgbChannels alphaChannel palette strength alphaThreshold progressCallback serpentine =
     errorDiffuse rgbChannels alphaChannel palette atkinsonRight (map mirror atkinsonRight) 8
       strength alphaThreshold progressCallback serpentine"

definition applySierraLiteDithering ::
  "grid \<Rightarrow> alpha \<Rightarrow> pixel list \<Rightarrow> real \<Rightarrow> real \<Rightarrow> bool \<Rightarrow> bool \<Rightarrow> js_error + grid \<times> real list" where
  "applySierraLiteDithering rgbChannels alphaChannel palette strength alphaThreshold progressCallback serpentine =
     errorDiffuse rgbChannels alphaChannel palette sierraLiteRight (map mirror sierraLiteRight) 4
       strength alphaThreshold progressCallback serpentine"

definition applySierra2Dithering ::
  "grid \<Rightarrow> alpha \<Rightarrow> pixel list \<Rightarrow> real \<Rightarrow> real \<Rightarrow> bool \<Rightarrow> bool \<Rightarrow> js_error + grid \<times> real list" where
  "applySierra2Dithering rgbChannels alphaChannel palette strength alphaThreshold progressCallback serpentine =
     errorDiffuse rgbChannels alphaChannel palette sierra2Right (map mirror sierra2Right) 16
       strength alphaThreshold progressCallback serpentine"

definition applySierra3Dithering ::
  "grid \<Rightarrow> alpha \<Rightarrow> pixel list \<Rightarrow> real \<Rightarrow> real \<Rightarrow> bool \<Rightarrow> bool \<Rightarrow> js_error + grid \<times> real list" where
  "applySierra3Dithering rgbChannels alphaChannel palette strength alphaThreshold progressCallback serpentine =
     errorDiffuse rgbChannels alphaChannel palette sierra3Right (map mirror sierra3Right) 32
       strength alphaThreshold progressCallback serpentine"

subsection \<open>Ordered dithering\<close>

definition bayerMat :: "real list list" where
  "bayerMat = [[0, 8, 2, 10], [12, 4, 14, 6], [3, 11, 1, 9], [15, 7, 13, 5]]"

definition bayerNorm :: "real list list" where
  "bayerNorm = map (map (\<lambda>v. v / 16 - 0.5)) bayerMat"

definition bayer_pixel :: "alpha \<Rightarrow> pixel list \<Rightarrow> real \<Rightarrow> real \<Rightarrow> nat \<Rightarrow> nat \<Rightarrow> grid \<Rightarrow> grid" where
  "bayer_pixel alphaChannel palette scale alphaThreshold y x out =
     (if alphaChannel ! y ! x < alphaThreshold then out
      else (let t = bayerNorm ! (y mod 4) ! (x mod 4) * scale * 255;
                p = getPx out y x;
                adjusted = (ch0 p + t, ch1 p + t, ch2 p + t)
            in setPx out y x (findClosestColorInPalette adjusted palette Lab)))"

text \<open>
  The colour that the loop body computes for one pixel \<open>p\<close> that passes the alpha test
  at position \<open>(x, y)\<close>, with \<open>scale = intensity / 255\<close>: the engine on a single pixel.
\<close>

definition bayer_color :: "pixel list \<Rightarrow> real \<Rightarrow> nat \<Rightarrow> nat \<Rightarrow> pixel \<Rightarrow> pixel" where
  "bayer_color palette intensity y x p =
     (let scale = intensity / 255;
          t = bayerNorm ! (y mod 4) ! (x mod 4) * scale * 255;
          adjusted = (ch0 p + t, ch1 p + t, ch2 p + t)
      in findClosestColorInPalette adjusted palette Lab)"

definition bayer_row :: "alpha \<Rightarrow> pixel list \<Rightarrow> real \<Rightarrow> real \<Rightarrow> nat \<Rightarrow> nat \<Rightarrow> grid \<Rightarrow> grid" where
  "bayer_row alphaChannel palette scale alphaThreshold wid y out =
     fold (bayer_pixel alphaChannel palette scale alphaThreshold y) [0..<wid] out"

definition applyBayerDithering ::
  "grid \<Rightarrow> alpha \<Rightarrow> pixel list \<Rightarrow> real \<Rightarrow> real \<Rightarrow> bool \<Rightarrow> js_error + grid \<times> real list" where
  "applyBayerDithering rgbChannels alphaChannel palette intensity alphaThreshold progressCallback =
     (if rgbChannels = [] then Inl TypeError
      else (let h = length rgbChannels; wid = length (hd rgbChannels);
                scale = intensity / 255
            in case rows_loop (bayer_row alphaChannel palette scale alphaThreshold wid)
                      (\<lambda>y. y mod 25 = 0) progressCallback h rgbChannels
               of (out, calls) \<Rightarrow> Inr (out, final_call progressCallback calls)))"

definition halftoneMat :: "real list list" where
  "halftoneMat =
     [[24, 3, 19, 8, 25, 4, 20, 9],
      [12, 43, 52, 35, 11, 44, 53, 36],
      [18, 51, 60, 42, 17, 50, 59, 41],
      [7, 34, 40, 58, 6, 33, 39, 57],
      [26, 5, 21, 10, 27, 2, 22, 1],
      [13, 45, 54, 37, 14, 46, 55, 38],
      [16, 49, 58, 40, 15, 48, 57, 39],
      [1, 32, 38, 56, 0, 31, 37, 55]]"

definition halftoneNorm :: "real list list" where
  "halftoneNorm = map (map (\<lambda>v. v / 64 - 0.5)) halftoneMat"

definition halftone_pixel :: "alpha \<Rightarrow> pixel list \<Rightarrow> real \<Rightarrow> real \<Rightarrow> nat \<Rightarrow> nat \<Rightarrow> grid \<Rightarrow> grid" where
  "halftone_pixel alphaChannel palette scale alphaThreshold y x out =
     (if alphaChannel ! y ! x < alphaThreshold then out
      else (let t = halftoneNorm ! (y mod 8) ! (x mod 8) * scale * 255;
                p = getPx out y x;
                adjusted = (ch0 p + t, ch1 p + t, ch2 p + t)
            in setPx out y x (findClosestColorInPalette adjusted palette Lab)))"

definition halftone_row :: "alpha \<Rightarrow> pixel list \<Rightarrow> real \<Rightarrow> real \<Rightarrow> nat \<Rightarrow> nat \<Rightarrow> grid \<Rightarrow> grid" where
  "halftone_row alphaChannel palette scale alphaThreshold wid y out =
     fold (halftone_pixel alphaChannel palette scale alphaThreshold y) [0..<wid] out"

definition applyHalftoneDithering ::
  "grid \<Rightarrow> alpha \<Rightarrow> pixel list \<Rightarrow> real \<Rightarrow> real \<Rightarrow> bool \<Rightarrow> js_error + grid \<times> real list" where
  "applyHalftoneDithering rgbChannels alphaChannel palette intensity alphaThreshold progressCallback =
     (if rgbChannels = [] then Inl TypeError
      else (let h = length rgbChannels; wid = length (hd rgbChannels);
                scale = intensity / 255
            in case rows_loop (halftone_row alphaChannel palette scale alphaThreshold wid)
                      (\<lambda>y. y mod 25 = 0) progressCallback h rgbChannels
               of (out, calls) \<Rightarrow> Inr (out, final_call progressCallback calls)))"

subsection \<open>Random noise dithering\<close>

text \<open>
  \<open>Math.random()\<close> is a sequence \<open>rnd 0, rnd 1, \<dots>\<close> of numbers; the state of the scan
  carries the number of draws made so far; \<open>rng\<close> is the source's \<open>range\<close>. Each visited pixel draws three times, for
  the channels in order. The row loop has no progress call; only the final call is made.
\<close>

definition random_pixel ::
  "(nat \<Rightarrow> real) \<Rightarrow> alpha \<Rightarrow> pixel list \<Rightarrow> real \<Rightarrow> real \<Rightarrow> nat \<Rightarrow> nat \<Rightarrow> grid \<times> nat \<Rightarrow> grid \<times> nat" where
  "random_pixel rnd alphaChannel palette rng alphaThreshold y x st =
     (case st of (out, k) \<Rightarrow>
        if alphaChannel ! y ! x < alphaThreshold then (out, k)
        else (let p = getPx out y x;
                  noise = (\<lambda>i. (rnd i * 2 - 1) * rng);
                  perturbed = (ch0 p + noise k, ch1 p + noise (k + 1), ch2 p + noise (k + 2))
              in (setPx out y x (findClosestColorInPalette perturbed palette Lab), k + 3)))"

definition random_row ::
  "(nat \<Rightarrow> real) \<Rightarrow> alpha \<Rightarrow> pixel list \<Rightarrow> real \<Rightarrow> real \<Rightarrow> nat \<Rightarrow> nat \<Rightarrow> grid \<times> nat \<Rightarrow> grid \<times> nat" where
  "random_row rnd alphaChannel palette rng alphaThreshold wid y st =
     fold (random_pixel rnd alphaChannel palette rng alphaThreshold y) [0..<wid] st"

definition applyRandomDithering ::
  "(nat \<Rightarrow> real) \<Rightarrow> grid \<Rightarrow> alpha \<Rightarrow> pixel list \<Rightarrow> real \<Rightarrow> real \<Rightarrow> bool \<Rightarrow> js_error + grid \<times> real list" where
  "applyRandomDithering rnd rgbChannels alphaChannel palette intensity alphaThreshold progressCallback =
     (if rgbChannels = [] then Inl TypeError
      else (let h = length rgbChannels; wid = length (hd rgbChannels);
                rng = intensity
            in case rows_loop (random_row rnd alphaChannel palette rng alphaThreshold wid)
                      (\<lambda>y. False) progressCallback h (rgbChannels, 0)
               of ((out, k), calls) \<Rightarrow> Inr (out, final_call progressCallback calls)))"

subsection \<open>Quantisation without dithering\<close>

definition nodither_pixel :: "alpha \<Rightarrow> pixel list \<Rightarrow> real \<Rightarrow> nat \<Rightarrow> nat \<Rightarrow> grid \<Rightarrow> grid" where
  "nodither_pixel alphaChannel palette alphaThreshold y x out =
     (if alphaChannel ! y ! x < alphaThreshold then out
      else setPx out y x (findClosestColorInPalette (getPx out y x) palette Lab))"

definition nodither_row :: "alpha \<Rightarrow> pixel list \<Rightarrow> real \<Rightarrow> nat \<Rightarrow> nat \<Rightarrow> grid \<Rightarrow> grid" where
  "nodither_row alphaChannel palette alphaThreshold wid y out =
     fold (nodither_pixel alphaChannel palette alphaThreshold y) [0..<wid] out"

definition applyNoDithering ::
  "grid \<Rightarrow> alpha \<Rightarrow> pixel list \<Rightarrow> real \<Rightarrow> bool \<Rightarrow> js_error + grid \<times> real list" where
  "applyNoDithering rgbChannels alphaChannel palette alphaThreshold progressCallback =
     (if rgbChannels = [] then Inl TypeError
      else (let h = length rgbChannels; wid = length (hd rgbChannels);
                reportEvery = max 1 (h div 50)
            in case rows_loop (nodither_row alphaChannel palette alphaThreshold wid)
                      (\<lambda>y. y mod reportEvery = 0) progressCallback h rgbChannels
               of (out, calls) \<Rightarrow> Inr (out, final_call progressCallback calls)))"

subsection \<open>The twelve methods\<close>

text \<open>
  The caller's \<open>switch (dithering)\<close> selects one of the twelve exported functions.
  Here the strength and the intensity are both arguments, so that a statement about
  every method ranges over both.
\<close>

datatype dithering =
  FloydSteinberg | Jarvis | Stucki | Burkes | Atkinson | SierraLite | Sierra2 | Sierra3
  | Bayer | Halftone | Random | NoDither

definition dither ::
  "dithering \<Rightarrow> (nat \<Rightarrow> real) \<Rightarrow> grid \<Rightarrow> alpha \<Rightarrow> pixel list \<Rightarrow> real \<Rightarrow> real \<Rightarrow> real \<Rightarrow> bool \<Rightarrow> bool
     \<Rightarrow> js_error + grid \<times> real list" where
  "dither m rnd rgbChannels alphaChannel palette strength intensity alphaThreshold progress serpentine =
     (case m of
        FloydSteinberg \<Rightarrow>
          applyFloydSteinbergDithering rgbChannels alphaChannel palette strength alphaThreshold progress serpentine
      | Jarvis \<Rightarrow> applyJarvisDithering rgbChannels alphaChannel palette strength alphaThreshold progress serpentine
      | Stucki \<Rightarrow> applyStuckiDithering rgbChannels alphaChannel palette strength alphaThreshold progress serpentine
      | Burkes \<Rightarrow> applyBurkesDithering rgbChannels alphaChannel palette strength alphaThreshold progress serpentine
      | Atkinson \<Rightarrow> applyAtkinsonDithering rgbChannels alphaChannel palette strength alphaThreshold progress serpentine
      | SierraLite \<Rightarrow>
          applySierraLiteDithering rgbChannels alphaChannel palette strength alphaThreshold progress serpentine
      | Sierra2 \<Rightarrow> applySierra2Dithering rgbChannels alphaChannel palette strength alphaThreshold progress serpentine
      | Sierra3 \<Rightarrow> applySierra3Dithering rgbChannels alphaChannel palette strength alphaThreshold progress serpentine
      | Bayer \<Rightarrow> applyBayerDithering rgbChannels alphaChannel palette intensity alphaThreshold progress
      | Halftone \<Rightarrow> applyHalftoneDithering rgbChannels alphaChannel palette intensity alphaThreshold progress
      | Random \<Rightarrow> applyRandomDithering rnd rgbChannels alphaChannel palette intensity alphaThreshold progress
      | NoDither \<Rightarrow> applyNoDithering rgbChannels alphaChannel palette alphaThreshold progress)"

subsection \<open>Serpentine scanning, in the words of the specification\<close>

text \<open>
  A row is scanned left to right when \<open>serpentine\<close> is false or \<open>y\<close> is even, and right
  to left otherwise; a right-to-left row uses the left-to-right kernel \<open>K\<close> with every
  \<open>\<Delta>x\<close> negated.
\<close>

definition serpentine_row ::
  "alpha \<Rightarrow> pixel list \<Rightarrow> neighbor list \<Rightarrow> real \<Rightarrow> real \<Rightarrow> real \<Rightarrow> bool \<Rightarrow> nat \<Rightarrow> nat \<Rightarrow> nat \<Rightarrow> grid \<Rightarrow> grid" where
  "serpentine_row alphaChannel palette K denom strength alphaThreshold serpentine wid h y out =
     (if \<not> serpentine \<or> even y
      then fold (ed_pixel alphaChannel palette K denom strength alphaThreshold wid h y) [0..<wid] out
      else fold (ed_pixel alphaChannel palette (map mirror K) denom strength alphaThreshold wid h y)
             (rev [0..<wid]) out)"

text \<open>
  The left-to-right kernel and the denominator of each error-diffusion method. The
  Floyd-Steinberg tables hold the weights already divided by 16.
\<close>

definition kernel_of :: "dithering \<Rightarrow> neighbor list" where
  "kernel_of m =
     (case m of FloydSteinberg \<Rightarrow> fsRight | Jarvis \<Rightarrow> jarvisRight | Stucki \<Rightarrow> stuckiRight
      | Burkes \<Rightarrow> burkesRight | Atkinson \<Rightarrow> atkinsonRight | SierraLite \<Rightarrow> sierraLiteRight
      | Sierra2 \<Rightarrow> sierra2Right | Sierra3 \<Rightarrow> sierra3Right | _ \<Rightarrow> [])"

definition denom_of :: "dithering \<Rightarrow> real" where
  "denom_of m =
     (case m of FloydSteinberg \<Rightarrow> 1 | Jarvis \<Rightarrow> 48 | Stucki \<Rightarrow> 42
      | Burkes \<Rightarrow> 32 | Atkinson \<Rightarrow> 8 | SierraLite \<Rightarrow> 4
      | Sierra2 \<Rightarrow> 16 | Sierra3 \<Rightarrow> 32 | _ \<Rightarrow> 1)"

definition error_diffusion_methods :: "dithering set" where
  "error_diffusion_methods =
     {FloydSteinberg, Jarvis, Stucki, Burkes, Atkinson, SierraLite, Sierra2, Sierra3}"

subsection \<open>The calls of the progress callback, in the words of the specification\<close>

text \<open>
  A pass over \<open>h\<close> rows that reports on the rows selected by \<open>report\<close> calls the
  callback, if there is one, with \<open>(y + 1) / h\<close> for every selected row \<open>y\<close> in
  increasing order and finally with \<open>1\<close>.
\<close>

definition progress_calls :: "(nat \<Rightarrow> bool) \<Rightarrow> bool \<Rightarrow> nat \<Rightarrow> real list" where
  "progress_calls report cb h =
     (if cb then map (\<lambda>y. real (y + 1) / real h) (filter report [0..<h]) @ [1] else [])"

section \<open>Properties of the search\<close>

lemma first_min_single: "first_min d (Suc 0) 0"
  by (simp add: first_min_def)

lemma first_min_new:
  assumes "first_min d n k" "d n < d k"
  shows "first_min d (Suc n) n"
  using assms unfolding first_min_def
  by (metis less_Suc_eq less_le_not_le linorder_not_less order_less_le_trans order_refl)

lemma first_min_keep:
  assumes "first_min d n k" "\<not> d n < d k"
  shows "first_min d (Suc n) k"
  using assms unfolding first_min_def
  by (metis less_Suc_eq linorder_not_less)

lemma first_min_cong:
  assumes "\<And>j. j < n \<Longrightarrow> d j = e j"
  shows "first_min d n k = first_min e n k"
  using assms unfolding first_min_def by (metis order.strict_trans)

lemma first_min_unique: "first_min d n i \<Longrightarrow> first_min d n j \<Longrightarrow> i = j"
  unfolding first_min_def by (metis linorder_neqE_nat not_less)

lemma fold_closest_step:
  assumes "xs \<noteq> []"
  shows "\<exists>k. first_min (\<lambda>j. dst (xs ! j)) (length xs) k \<and>
             fold (closest_step dst) xs (None, c0) = (Some (dst (xs ! k)), xs ! k)"
  using assms
proof (induction xs rule: rev_nonempty_induct)
  case (single x)
  show ?case
    by (simp add: closest_step_def less_inf_def first_min_def)
next
  case (snoc x xs)
  then obtain k where k: "first_min (\<lambda>j. dst (xs ! j)) (length xs) k"
    and f: "fold (closest_step dst) xs (None, c0) = (Some (dst (xs ! k)), xs ! k)"
    by blast
  let ?d = "\<lambda>j. dst ((xs @ [x]) ! j)"
  have klt: "k < length xs" using k by (simp add: first_min_def)
  have k': "first_min ?d (length xs) k"
    using k first_min_cong [of "length xs" ?d "\<lambda>j. dst (xs ! j)" k]
    by (simp add: nth_append)
  have dn: "?d (length xs) = dst x" by simp
  have dk: "?d k = dst (xs ! k)" using klt by (simp add: nth_append)
  show ?case
  proof (cases "dst x < dst (xs ! k)")
    case True
    then have "first_min ?d (Suc (length xs)) (length xs)"
      using first_min_new [OF k'] dn dk by simp
    moreover have "fold (closest_step dst) (xs @ [x]) (None, c0) = (Some (dst x), x)"
      using True f by (simp add: closest_step_def less_inf_def)
    ultimately show ?thesis
      by (intro exI [of _ "length xs"]) simp
  next
    case False
    then have "first_min ?d (Suc (length xs)) k"
      using first_min_keep [OF k'] dn dk by simp
    moreover have "fold (closest_step dst) (xs @ [x]) (None, c0) = (Some (dst (xs ! k)), xs ! k)"
      using False f by (simp add: closest_step_def less_inf_def)
    ultimately show ?thesis
      using klt by (intro exI [of _ k]) (simp add: nth_append)
  qed
qed

lemma closestColor_first_min:
  assumes "palette \<noteq> []"
  shows "\<exists>k. first_min (\<lambda>j. dst (palette ! j)) (length palette) k \<and>
             closestColor dst palette = palette ! k"
  using fold_closest_step [OF assms, of dst "hd palette"]
  unfolding closestColor_def by auto

lemma best_step_eq: "best_step = closest_step"
  by (intro ext) (simp add: best_step_def closest_step_def)

lemma bestIdx_first_min:
  assumes "labs \<noteq> []"
  shows "first_min (\<lambda>j. deltaE76 plab (labs ! j)) (length labs) (bestIdx plab labs)"
proof -
  have ne: "[0..<length labs] \<noteq> []" using assms by simp
  obtain k where k: "first_min (\<lambda>j. deltaE76 plab (labs ! ([0..<length labs] ! j))) (length [0..<length labs]) k"
    and f: "fold (closest_step (\<lambda>i. deltaE76 plab (labs ! i))) [0..<length labs] (None, 0)
            = (Some (deltaE76 plab (labs ! ([0..<length labs] ! k))), [0..<length labs] ! k)"
    using fold_closest_step [OF ne, of "\<lambda>i. deltaE76 plab (labs ! i)" 0] by blast
  have klt: "k < length labs" using k by (simp add: first_min_def)
  have "first_min (\<lambda>j. deltaE76 plab (labs ! j)) (length labs) k"
    using k first_min_cong [of "length labs" "\<lambda>j. deltaE76 plab (labs ! j)"
        "\<lambda>j. deltaE76 plab (labs ! ([0..<length labs] ! j))" k]
    by simp
  moreover have "bestIdx plab labs = k"
    using f klt by (simp add: bestIdx_def best_step_eq)
  ultimately show ?thesis by simp
qed

lemma findClosest_first_min:
  assumes "palette \<noteq> []"
  shows "\<exists>k. first_min (\<lambda>j. modeDistance mode pixel (palette ! j)) (length palette) k \<and>
             findClosestColorInPalette pixel palette mode = palette ! k"
proof (cases mode)
  case Rgb
  then show ?thesis
    using closestColor_first_min [OF assms, of "rgbDistance pixel"] assms
    by (simp add: findClosestColorInPalette_def modeDistance_def)
next
  case Compuphase
  then show ?thesis
    using closestColor_first_min [OF assms, of "compuphaseDistance pixel"] assms
    by (simp add: findClosestColorInPalette_def modeDistance_def)
next
  case Lab
  have ne: "map rgbToLab palette \<noteq> []" using assms by simp
  let ?k = "bestIdx (rgbToLab pixel) (map rgbToLab palette)"
  have fm: "first_min (\<lambda>j. deltaE76 (rgbToLab pixel) (map rgbToLab palette ! j)) (length palette) ?k"
    using bestIdx_first_min [OF ne, of "rgbToLab pixel"] by simp
  have "first_min (\<lambda>j. modeDistance Lab pixel (palette ! j)) (length palette) ?k"
    using fm first_min_cong [of "length palette" "\<lambda>j. modeDistance Lab pixel (palette ! j)"
        "\<lambda>j. deltaE76 (rgbToLab pixel) (map rgbToLab palette ! j)" ?k]
    by (simp add: modeDistance_def labDistance_def)
  then show ?thesis
    using Lab assms by (auto simp: findClosestColorInPalette_def Let_def)
qed

section \<open>The passes as folds over the rows\<close>

lemma fold_invariant:
  assumes "P s" and "\<And>x s. x \<in> set xs \<Longrightarrow> P s \<Longrightarrow> P (f x s)"
  shows "P (fold f xs s)"
  using assms by (induction xs arbitrary: s) auto

lemma fold_report_step:
  "fold (report_step row report cb h) ys (s, calls) =
     (fold row ys s,
      calls @ (if cb then map (\<lambda>y. real (y + 1) / real h) (filter report ys) else []))"
  by (induction ys arbitrary: s calls) (auto simp: report_step_def)

lemma rows_loop_eq:
  "rows_loop row report cb h s =
     (fold row [0..<h] s, if cb then map (\<lambda>y. real (y + 1) / real h) (filter report [0..<h]) else [])"
  by (simp add: rows_loop_def fold_report_step)

lemma final_call_rows:
  "final_call cb (if cb then map (\<lambda>y. real (y + 1) / real h) (filter report [0..<h]) else [])
     = progress_calls report cb h"
  by (simp add: final_call_def progress_calls_def)

lemma errorDiffuse_eq:
  assumes "rgb \<noteq> []"
  shows "errorDiffuse rgb al pal R L D s thr cb serp =
     Inr (fold (ed_row al pal R L D s thr serp (length (hd rgb)) (length rgb)) [0..<length rgb] rgb,
          progress_calls (\<lambda>y. y mod max 1 (length rgb div 50) = 0) cb (length rgb))"
  using assms by (simp add: errorDiffuse_def rows_loop_eq Let_def final_call_rows)

lemma fs_pixel_eq:
  "fs_pixel al pal s thr wid h ltr = ed_pixel al pal (if ltr then fsRight else fsLeft) 1 s thr wid h"
  by (intro ext) (simp add: fs_pixel_def ed_pixel_def Let_def)

lemma fs_row_eq:
  "fs_row al pal s thr serp wid h = ed_row al pal fsRight fsLeft 1 s thr serp wid h"
  by (intro ext) (simp add: fs_row_def ed_row_def Let_def fs_pixel_eq)

lemma applyFloydSteinbergDithering_eq:
  "applyFloydSteinbergDithering rgb al pal s thr cb serp = errorDiffuse rgb al pal fsRight fsLeft 1 s thr cb serp"
  by (simp add: applyFloydSteinbergDithering_def errorDiffuse_def fs_row_eq)

lemma applyBayerDithering_eq:
  assumes "rgb \<noteq> []"
  shows "applyBayerDithering rgb al pal intensity thr cb =
     Inr (fold (bayer_row al pal (intensity / 255) thr (length (hd rgb))) [0..<length rgb] rgb,
          progress_calls (\<lambda>y. y mod 25 = 0) cb (length rgb))"
  using assms by (simp add: applyBayerDithering_def rows_loop_eq Let_def final_call_rows)

lemma applyHalftoneDithering_eq:
  assumes "rgb \<noteq> []"
  shows "applyHalftoneDithering rgb al pal intensity thr cb =
     Inr (fold (halftone_row al pal (intensity / 255) thr (length (hd rgb))) [0..<length rgb] rgb,
          progress_calls (\<lambda>y. y mod 25 = 0) cb (length rgb))"
  using assms by (simp add: applyHalftoneDithering_def rows_loop_eq Let_def final_call_rows)

lemma applyNoDithering_eq:
  assumes "rgb \<noteq> []"
  shows "applyNoDithering rgb al pal thr cb =
     Inr (fold (nodither_row al pal thr (length (hd rgb))) [0..<length rgb] rgb,
          progress_calls (\<lambda>y. y mod max 1 (length rgb div 50) = 0) cb (length rgb))"
  using assms by (simp add: applyNoDithering_def rows_loop_eq Let_def final_call_rows)

lemma applyRandomDithering_eq:
  assumes "rgb \<noteq> []"
  shows "applyRandomDithering rnd rgb al pal intensity thr cb =
     Inr (fst (fold (random_row rnd al pal intensity thr (length (hd rgb))) [0..<length rgb] (rgb, 0)),
          progress_calls (\<lambda>y. False) cb (length rgb))"
  using assms
  by (simp add: applyRandomDithering_def rows_loop_eq Let_def final_call_rows split: prod.splits)

section \<open>Channel range\<close>

lemma getPx_setPx:
  "getPx (setPx out y x p) y' x' =
     (if y' = y \<and> x' = x \<and> y < length out \<and> x < length (out ! y) then p else getPx out y' x')"
proof (cases "y' = y")
  case True
  show ?thesis
  proof (cases "y < length out")
    case True
    with \<open>y' = y\<close> show ?thesis
      by (cases "x' = x") (auto simp: getPx_def setPx_def list_update_beyond not_less)
  next
    case False
    with \<open>y' = y\<close> show ?thesis by (simp add: getPx_def setPx_def list_update_beyond not_less)
  qed
next
  case False
  then show ?thesis by (simp add: getPx_def setPx_def)
qed

lemma length_setPx: "length (setPx out y x p) = length out"
  by (simp add: setPx_def)

lemma set_setPx_subset:
  "set (setPx out y x p) \<subseteq> insert ((out ! y)[x := p]) (set out)"
  unfolding setPx_def by (rule set_update_subset_insert)

lemma rectangular_setPx:
  assumes "rectangular out h wid"
  shows "rectangular (setPx out y x p) h wid"
proof (cases "y < length out")
  case True
  then have "out ! y \<in> set out" by simp
  then have "length ((out ! y)[x := p]) = wid"
    using assms by (simp add: rectangular_def)
  then show ?thesis
    using assms set_setPx_subset [of out y x p]
    by (auto simp: rectangular_def length_setPx)
next
  case False
  then show ?thesis using assms by (simp add: setPx_def list_update_beyond not_less)
qed

lemma grid_in_range_setPx:
  assumes "grid_in_range out" "in_range p"
  shows "grid_in_range (setPx out y x p)"
proof (cases "y < length out")
  case True
  then have row: "out ! y \<in> set out" by simp
  have "\<forall>q \<in> set ((out ! y)[x := p]). in_range q"
  proof
    fix q assume "q \<in> set ((out ! y)[x := p])"
    then have "q = p \<or> q \<in> set (out ! y)"
      using set_update_subset_insert [of "out ! y" x p] by auto
    then show "in_range q"
      using assms row by (auto simp: grid_in_range_def)
  qed
  then show ?thesis
    using assms(1) set_setPx_subset [of out y x p]
    by (auto simp: grid_in_range_def)
next
  case False
  then show ?thesis using assms by (simp add: setPx_def list_update_beyond not_less)
qed

lemma clamp_bounds: "0 \<le> clamp v 0 255 \<and> clamp v 0 255 \<le> 255"
  by (simp add: clamp_def)

lemma in_range_clamped:
  "in_range (clamp a 0 255, clamp b 0 255, clamp c 0 255)"
  by (simp add: in_range_def ch0_def ch1_def ch2_def clamp_def)

lemma in_range_black: "in_range (0, 0, 0)"
  by (simp add: in_range_def ch0_def ch1_def ch2_def)

lemma findClosest_member:
  assumes "palette \<noteq> []"
  shows "findClosestColorInPalette pixel palette mode \<in> set palette"
proof -
  obtain k where "first_min (\<lambda>j. modeDistance mode pixel (palette ! j)) (length palette) k"
    and "findClosestColorInPalette pixel palette mode = palette ! k"
    using findClosest_first_min [OF assms] by blast
  then show ?thesis by (simp add: first_min_def)
qed

lemma findClosest_empty: "findClosestColorInPalette pixel [] mode = (0, 0, 0)"
  by (simp add: findClosestColorInPalette_def)

lemma in_range_findClosest:
  assumes "\<forall>c \<in> set palette. in_range c"
  shows "in_range (findClosestColorInPalette pixel palette mode)"
proof (cases "palette = []")
  case True
  then show ?thesis by (simp add: findClosest_empty in_range_black)
next
  case False
  then show ?thesis using assms findClosest_member by blast
qed

lemma grid_in_range_diffuse:
  assumes "grid_in_range out"
  shows "grid_in_range (diffuse al thr wid h err y x n out)"
  using assms by (simp add: diffuse_def Let_def grid_in_range_setPx in_range_clamped)

lemma grid_in_range_ed_pixel:
  assumes "grid_in_range out" "\<forall>c \<in> set palette. in_range c"
  shows "grid_in_range (ed_pixel al palette neigh denom s thr wid h y x out)"
proof (cases "al ! y ! x < thr")
  case True
  then show ?thesis using assms by (simp add: ed_pixel_def)
next
  case False
  let ?newP = "findClosestColorInPalette (getPx out y x) palette Lab"
  have "grid_in_range (setPx out y x ?newP)"
    using assms by (simp add: grid_in_range_setPx in_range_findClosest)
  then show ?thesis
    using False
    by (simp add: ed_pixel_def Let_def fold_invariant [where P = grid_in_range] grid_in_range_diffuse)
qed

lemma grid_in_range_ed_row:
  assumes "grid_in_range out" "\<forall>c \<in> set palette. in_range c"
  shows "grid_in_range (ed_row al palette R L denom s thr serp wid h y out)"
  unfolding ed_row_def Let_def
  by (rule fold_invariant [where P = grid_in_range]) (simp_all add: assms grid_in_range_ed_pixel)

lemma grid_in_range_bayer_row:
  assumes "grid_in_range out" "\<forall>c \<in> set palette. in_range c"
  shows "grid_in_range (bayer_row al palette scale thr wid y out)"
  unfolding bayer_row_def
  by (rule fold_invariant [where P = grid_in_range])
     (simp_all add: assms bayer_pixel_def Let_def grid_in_range_setPx in_range_findClosest)

lemma grid_in_range_halftone_row:
  assumes "grid_in_range out" "\<forall>c \<in> set palette. in_range c"
  shows "grid_in_range (halftone_row al palette scale thr wid y out)"
  unfolding halftone_row_def
  by (rule fold_invariant [where P = grid_in_range])
     (simp_all add: assms halftone_pixel_def Let_def grid_in_range_setPx in_range_findClosest)

lemma grid_in_range_nodither_row:
  assumes "grid_in_range out" "\<forall>c \<in> set palette. in_range c"
  shows "grid_in_range (nodither_row al palette thr wid y out)"
  unfolding nodither_row_def
  by (rule fold_invariant [where P = grid_in_range])
     (simp_all add: assms nodither_pixel_def grid_in_range_setPx in_range_findClosest)

lemma grid_in_range_random_row:
  assumes "grid_in_range (fst st)" "\<forall>c \<in> set palette. in_range c"
  shows "grid_in_range (fst (random_row rnd al palette rng thr wid y st))"
  unfolding random_row_def
  by (rule fold_invariant [where P = "\<lambda>st. grid_in_range (fst st)"])
     (auto simp: assms random_pixel_def Let_def grid_in_range_setPx in_range_findClosest split: prod.splits)

lemma grid_in_range_errorDiffuse:
  assumes "rgb \<noteq> []" "grid_in_range rgb" "\<forall>c \<in> set palette. in_range c"
  shows "\<exists>out calls. errorDiffuse rgb al palette R L D s thr cb serp = Inr (out, calls) \<and> grid_in_range out"
  unfolding errorDiffuse_eq [OF assms(1)]
  by (simp add: fold_invariant [where P = grid_in_range] assms grid_in_range_ed_row)

text \<open>
  Claim C1. For each of the twelve methods, on a rectangular grid with a parallel alpha
  mask, when every channel of the input grid and of the palette lies in \<open>[0,255]\<close>,
  the pass returns a grid, and every channel of every pixel of it lies in \<open>[0,255]\<close>,
  whatever the strength, the intensity, the threshold, the scan mode and the random
  numbers are.
\<close>

theorem clamping_all_methods:
  assumes "wellformed rgbChannels alphaChannel"
    and "grid_in_range rgbChannels"
    and pal: "palette_in_range palette"
  shows "\<exists>out calls.
           dither m rnd rgbChannels alphaChannel palette strength intensity alphaThreshold progress serpentine
             = Inr (out, calls) \<and>
           grid_in_range out"
proof -
  have ne: "rgbChannels \<noteq> []" using assms(1) by (simp add: wellformed_def)
  have assms3: "\<forall>c \<in> set palette. in_range c" using pal by (simp add: palette_in_range_def)
  note assms = assms(1,2) assms3
  note ed = grid_in_range_errorDiffuse [OF ne assms(2,3)]
  show ?thesis
  proof (cases m)
    case FloydSteinberg
    then show ?thesis using ed by (simp add: dither_def applyFloydSteinbergDithering_eq)
  next
    case Jarvis
    then show ?thesis using ed by (simp add: dither_def applyJarvisDithering_def)
  next
    case Stucki
    then show ?thesis using ed by (simp add: dither_def applyStuckiDithering_def)
  next
    case Burkes
    then show ?thesis using ed by (simp add: dither_def applyBurkesDithering_def)
  next
    case Atkinson
    then show ?thesis using ed by (simp add: dither_def applyAtkinsonDithering_def)
  next
    case SierraLite
    then show ?thesis using ed by (simp add: dither_def applySierraLiteDithering_def)
  next
    case Sierra2
    then show ?thesis using ed by (simp add: dither_def applySierra2Dithering_def)
  next
    case Sierra3
    then show ?thesis using ed by (simp add: dither_def applySierra3Dithering_def)
  next
    case Bayer
    then show ?thesis
      by (simp add: dither_def applyBayerDithering_eq [OF ne]
          fold_invariant [where P = grid_in_range] assms grid_in_range_bayer_row)
  next
    case Halftone
    then show ?thesis
      by (simp add: dither_def applyHalftoneDithering_eq [OF ne]
          fold_invariant [where P = grid_in_range] assms grid_in_range_halftone_row)
  next
    case Random
    have "grid_in_range (fst (fold (random_row rnd alphaChannel palette intensity alphaThreshold
              (length (hd rgbChannels))) [0..<length rgbChannels] (rgbChannels, 0)))"
      by (rule fold_invariant [where P = "\<lambda>st. grid_in_range (fst st)"])
         (simp_all add: assms grid_in_range_random_row)
    with Random show ?thesis
      by (simp add: dither_def applyRandomDithering_eq [OF ne])
  next
    case NoDither
    then show ?thesis
      by (simp add: dither_def applyNoDithering_eq [OF ne]
          fold_invariant [where P = grid_in_range] assms grid_in_range_nodither_row)
  qed
qed

theorem clamping_all_methods_witness:
  "wellformed [[(10, 20, 30), (200, 100, 0)]] [[255, 0]] \<and>
   grid_in_range [[(10, 20, 30), (200, 100, 0)]] \<and>
   palette_in_range [(0, 0, 0), (255, 255, 255)] \<and>
   (\<exists>out calls.
      dither Atkinson (\<lambda>i. 0) [[(10, 20, 30), (200, 100, 0)]] [[255, 0]] [(0, 0, 0), (255, 255, 255)]
        3 32 128 True True = Inr (out, calls) \<and> grid_in_range out)"
proof -
  have a: "wellformed [[(10, 20, 30), (200, 100, 0)]] [[255, 0]]"
    by (simp add: wellformed_def rectangular_def)
  have b: "grid_in_range [[(10, 20, 30), (200, 100, 0)]]"
    by (simp add: grid_in_range_def in_range_def ch0_def ch1_def ch2_def)
  have c: "palette_in_range [(0, 0, 0), (255, 255, 255)]"
    by (simp add: palette_in_range_def in_range_def ch0_def ch1_def ch2_def)
  show ?thesis
    using a b c clamping_all_methods [OF a b c, of Atkinson "\<lambda>i. 0" 3 32 128 True True]
    by blast
qed

section \<open>Pixels below the alpha threshold\<close>

lemma getPx_setPx_other:
  "(y, x) \<noteq> (y0, x0) \<Longrightarrow> getPx (setPx out y x p) y0 x0 = getPx out y0 x0"
  by (auto simp: getPx_setPx)

lemma getPx_diffuse_other:
  assumes "int y0 \<noteq> int y + dy n \<or> int x0 \<noteq> int x + dx n \<or> al ! y0 ! x0 < thr"
  shows "getPx (diffuse al thr wid h err y x n out) y0 x0 = getPx out y0 x0"
proof -
  let ?nx = "int x + dx n" and ?ny = "int y + dy n"
  show ?thesis
  proof (cases "?nx < 0 \<or> ?nx \<ge> int wid \<or> ?ny < 0 \<or> ?ny \<ge> int h \<or> al ! nat ?ny ! nat ?nx < thr")
    case True
    then show ?thesis by (auto simp: diffuse_def Let_def)
  next
    case False
    then have "(nat ?ny, nat ?nx) \<noteq> (y0, x0)"
      using assms by auto
    then show ?thesis
      using False by (simp add: diffuse_def Let_def getPx_setPx_other)
  qed
qed

lemma getPx_ed_pixel_other:
  assumes "al ! y0 ! x0 < thr \<or>
           ((y, x) \<noteq> (y0, x0) \<and> (\<forall>n \<in> set neigh. int y0 \<noteq> int y + dy n \<or> int x0 \<noteq> int x + dx n))"
  shows "getPx (ed_pixel al pal neigh D s thr wid h y x out) y0 x0 = getPx out y0 x0"
proof (cases "al ! y ! x < thr")
  case True
  then show ?thesis by (simp add: ed_pixel_def)
next
  case False
  then have ne: "(y, x) \<noteq> (y0, x0)" using assms by auto
  let ?newP = "findClosestColorInPalette (getPx out y x) pal Lab"
  have "getPx (fold (diffuse al thr wid h err y x) neigh (setPx out y x ?newP)) y0 x0 = getPx out y0 x0"
    for err
  proof (rule fold_invariant [where P = "\<lambda>g. getPx g y0 x0 = getPx out y0 x0"])
    show "getPx (setPx out y x ?newP) y0 x0 = getPx out y0 x0"
      using ne by (rule getPx_setPx_other)
  next
    fix n g
    assume "n \<in> set neigh" "getPx g y0 x0 = getPx out y0 x0"
    then show "getPx (diffuse al thr wid h err y x n g) y0 x0 = getPx out y0 x0"
      using assms getPx_diffuse_other [of y0 y n x0 x al thr wid h err g] by auto
  qed
  then show ?thesis using False by (simp add: ed_pixel_def Let_def)
qed

lemma getPx_ed_row_masked:
  assumes "al ! y0 ! x0 < thr"
  shows "getPx (ed_row al pal R L D s thr serp wid h y out) y0 x0 = getPx out y0 x0"
  unfolding ed_row_def Let_def
  by (rule fold_invariant [where P = "\<lambda>g. getPx g y0 x0 = getPx out y0 x0"])
     (simp_all add: assms getPx_ed_pixel_other)

lemma getPx_bayer_pixel_other:
  assumes "al ! y0 ! x0 < thr \<or> (y, x) \<noteq> (y0, x0)"
  shows "getPx (bayer_pixel al pal scale thr y x out) y0 x0 = getPx out y0 x0"
  using assms by (auto simp: bayer_pixel_def Let_def getPx_setPx)

lemma getPx_halftone_pixel_other:
  assumes "al ! y0 ! x0 < thr \<or> (y, x) \<noteq> (y0, x0)"
  shows "getPx (halftone_pixel al pal scale thr y x out) y0 x0 = getPx out y0 x0"
  using assms by (auto simp: halftone_pixel_def Let_def getPx_setPx)

lemma getPx_nodither_pixel_other:
  assumes "al ! y0 ! x0 < thr \<or> (y, x) \<noteq> (y0, x0)"
  shows "getPx (nodither_pixel al pal thr y x out) y0 x0 = getPx out y0 x0"
  using assms by (auto simp: nodither_pixel_def getPx_setPx)

lemma getPx_random_pixel_other:
  assumes "al ! y0 ! x0 < thr \<or> (y, x) \<noteq> (y0, x0)"
  shows "getPx (fst (random_pixel rnd al pal rng thr y x st)) y0 x0 = getPx (fst st) y0 x0"
  using assms by (auto simp: random_pixel_def Let_def getPx_setPx split: prod.splits)

lemma getPx_bayer_row_masked:
  assumes "al ! y0 ! x0 < thr"
  shows "getPx (bayer_row al pal scale thr wid y out) y0 x0 = getPx out y0 x0"
  unfolding bayer_row_def
  by (rule fold_invariant [where P = "\<lambda>g. getPx g y0 x0 = getPx out y0 x0"])
     (simp_all add: assms getPx_bayer_pixel_other)

lemma getPx_halftone_row_masked:
  assumes "al ! y0 ! x0 < thr"
  shows "getPx (halftone_row al pal scale thr wid y out) y0 x0 = getPx out y0 x0"
  unfolding halftone_row_def
  by (rule fold_invariant [where P = "\<lambda>g. getPx g y0 x0 = getPx out y0 x0"])
     (simp_all add: assms getPx_halftone_pixel_other)

lemma getPx_nodither_row_masked:
  assumes "al ! y0 ! x0 < thr"
  shows "getPx (nodither_row al pal thr wid y out) y0 x0 = getPx out y0 x0"
  unfolding nodither_row_def
  by (rule fold_invariant [where P = "\<lambda>g. getPx g y0 x0 = getPx out y0 x0"])
     (simp_all add: assms getPx_nodither_pixel_other)

lemma getPx_random_row_masked:
  assumes "al ! y0 ! x0 < thr"
  shows "getPx (fst (random_row rnd al pal rng thr wid y st)) y0 x0 = getPx (fst st) y0 x0"
  unfolding random_row_def
  by (rule fold_invariant [where P = "\<lambda>t. getPx (fst t) y0 x0 = getPx (fst st) y0 x0"])
     (simp_all add: assms getPx_random_pixel_other)

lemma errorDiffuse_masked:
  assumes "rgb \<noteq> []" "al ! y0 ! x0 < thr"
  shows "\<exists>out calls. errorDiffuse rgb al pal R L D s thr cb serp = Inr (out, calls) \<and>
           getPx out y0 x0 = getPx rgb y0 x0"
  unfolding errorDiffuse_eq [OF assms(1)]
  by (simp add: fold_invariant [where P = "\<lambda>g. getPx g y0 x0 = getPx rgb y0 x0"]
      assms getPx_ed_row_masked)

lemma dither_masked:
  assumes "wellformed rgbChannels alphaChannel"
    and "y < length rgbChannels" and "x < length (hd rgbChannels)"
    and "alphaChannel ! y ! x < alphaThreshold"
  shows "\<exists>out calls.
           dither m rnd rgbChannels alphaChannel palette strength intensity alphaThreshold progress serpentine
             = Inr (out, calls) \<and>
           getPx out y x = getPx rgbChannels y x"
proof -
  have ne: "rgbChannels \<noteq> []" using assms(1) by (simp add: wellformed_def)
  note ed = errorDiffuse_masked [OF ne assms(4)]
  show ?thesis
  proof (cases m)
    case FloydSteinberg
    then show ?thesis using ed by (simp add: dither_def applyFloydSteinbergDithering_eq)
  next
    case Jarvis
    then show ?thesis using ed by (simp add: dither_def applyJarvisDithering_def)
  next
    case Stucki
    then show ?thesis using ed by (simp add: dither_def applyStuckiDithering_def)
  next
    case Burkes
    then show ?thesis using ed by (simp add: dither_def applyBurkesDithering_def)
  next
    case Atkinson
    then show ?thesis using ed by (simp add: dither_def applyAtkinsonDithering_def)
  next
    case SierraLite
    then show ?thesis using ed by (simp add: dither_def applySierraLiteDithering_def)
  next
    case Sierra2
    then show ?thesis using ed by (simp add: dither_def applySierra2Dithering_def)
  next
    case Sierra3
    then show ?thesis using ed by (simp add: dither_def applySierra3Dithering_def)
  next
    case Bayer
    then show ?thesis
      by (simp add: dither_def applyBayerDithering_eq [OF ne] assms getPx_bayer_row_masked
          fold_invariant [where P = "\<lambda>g. getPx g y x = getPx rgbChannels y x"])
  next
    case Halftone
    then show ?thesis
      by (simp add: dither_def applyHalftoneDithering_eq [OF ne] assms getPx_halftone_row_masked
          fold_invariant [where P = "\<lambda>g. getPx g y x = getPx rgbChannels y x"])
  next
    case Random
    have "getPx (fst (fold (random_row rnd alphaChannel palette intensity alphaThreshold
              (length (hd rgbChannels))) [0..<length rgbChannels] (rgbChannels, 0))) y x
          = getPx rgbChannels y x"
      by (rule fold_invariant [where P = "\<lambda>t. getPx (fst t) y x = getPx rgbChannels y x"])
         (simp_all add: assms getPx_random_row_masked)
    with Random show ?thesis
      by (simp add: dither_def applyRandomDithering_eq [OF ne])
  next
    case NoDither
    then show ?thesis
      by (simp add: dither_def applyNoDithering_eq [OF ne] assms getPx_nodither_row_masked
          fold_invariant [where P = "\<lambda>g. getPx g y x = getPx rgbChannels y x"])
  qed
qed

text \<open>
  Claim C2. For each of the twelve methods, on a rectangular grid with a parallel alpha
  mask, the output pixel at a position \<open>(x, y)\<close> of the grid whose alpha is below the
  threshold equals the input pixel at \<open>(x, y)\<close>: it is neither replaced by a palette
  colour nor changed by diffused error.
\<close>

theorem alpha_pass_through:
  assumes "wellformed rgbChannels alphaChannel"
    and "y < length rgbChannels" and "x < length (hd rgbChannels)"
    and "alphaChannel ! y ! x < alphaThreshold"
  shows "\<exists>out calls.
           dither m rnd rgbChannels alphaChannel palette strength intensity alphaThreshold progress serpentine
             = Inr (out, calls) \<and>
           getPx out y x = getPx rgbChannels y x"
  using assms by (rule dither_masked)

theorem alpha_pass_through_witness:
  "wellformed [[(10, 20, 30), (200, 100, 0)]] [[255, 0]] \<and>
   (0::nat) < length [[(10, 20, 30), (200, 100, 0) :: pixel]] \<and>
   (1::nat) < length (hd [[(10, 20, 30), (200, 100, 0) :: pixel]]) \<and>
   [[255, 0 :: real]] ! 0 ! 1 < 128 \<and>
   (\<exists>out calls.
      dither FloydSteinberg (\<lambda>i. 0) [[(10, 20, 30), (200, 100, 0)]] [[255, 0]]
        [(0, 0, 0), (255, 255, 255)] 1 32 128 True False = Inr (out, calls) \<and>
      getPx out 0 1 = getPx [[(10, 20, 30), (200, 100, 0)]] 0 1)"
proof -
  have a: "wellformed [[(10, 20, 30), (200, 100, 0)]] [[255, 0]]"
    by (simp add: wellformed_def rectangular_def)
  have b: "(0::nat) < length [[(10, 20, 30), (200, 100, 0) :: pixel]]" by simp
  have c: "(1::nat) < length (hd [[(10, 20, 30), (200, 100, 0) :: pixel]])" by simp
  have d: "[[255, 0 :: real]] ! 0 ! 1 < 128" by simp
  show ?thesis
    using a b c d
      alpha_pass_through [OF a b c d, of FloydSteinberg "\<lambda>i. 0" "[(0, 0, 0), (255, 255, 255)]" 1 32 True False]
    by blast
qed

section \<open>Scan order: a visited pixel keeps its colour\<close>

lemma fold_point:
  assumes "Q s"
    and "\<And>x s. x \<in> set pre \<Longrightarrow> Q s \<Longrightarrow> Q (f x s)"
    and "\<And>s. Q s \<Longrightarrow> P (f x0 s)"
    and "\<And>x s. x \<in> set post \<Longrightarrow> P s \<Longrightarrow> P (f x s)"
  shows "P (fold f (pre @ x0 # post) s)"
proof -
  have "Q (fold f pre s)"
    by (rule fold_invariant [where P = Q]) (simp_all add: assms)
  then have "P (f x0 (fold f pre s))" by (rule assms(3))
  then have "P (fold f post (f x0 (fold f pre s)))"
    by (rule fold_invariant [where P = P]) (simp_all add: assms)
  then show ?thesis by simp
qed

lemma upt_split: "x0 < n \<Longrightarrow> [0..<n] = [0..<x0] @ x0 # [Suc x0..<n]"
  by (metis less_eq_nat.simps(1) less_or_eq_imp_le upt_add_eq_append upt_conv_Cons le_add_diff_inverse)

lemma columns_split:
  assumes "x0 < wid"
  shows "\<exists>pre post. columns ltr wid = pre @ x0 # post \<and>
           (\<forall>x \<in> set pre. x < wid \<and> x \<noteq> x0) \<and>
           (\<forall>x \<in> set post. x < wid \<and> (if ltr then x0 < x else x < x0))"
proof (cases ltr)
  case True
  have "columns ltr wid = [0..<x0] @ x0 # [Suc x0..<wid]"
    using True upt_split [OF assms] by (simp add: columns_def)
  then show ?thesis using True assms
    by (intro exI [of _ "[0..<x0]"] exI [of _ "[Suc x0..<wid]"]) auto
next
  case False
  have "columns ltr wid = rev [Suc x0..<wid] @ x0 # rev [0..<x0]"
    using False upt_split [OF assms] by (simp add: columns_def)
  then show ?thesis using False assms
    by (intro exI [of _ "rev [Suc x0..<wid]"] exI [of _ "rev [0..<x0]"]) auto
qed

lemma fold_rows_point:
  assumes "y0 < h" "Q s"
    and "\<And>y s. y < y0 \<Longrightarrow> Q s \<Longrightarrow> Q (row y s)"
    and "\<And>s. Q s \<Longrightarrow> P (row y0 s)"
    and "\<And>y s. y0 < y \<Longrightarrow> y < h \<Longrightarrow> P s \<Longrightarrow> P (row y s)"
  shows "P (fold row [0..<h] s)"
  unfolding upt_split [OF assms(1)]
  by (rule fold_point [where Q = Q]) (simp_all add: assms)


lemma rectangular_nth:
  assumes "rectangular g h wid" "y < h"
  shows "y < length g" and "length (g ! y) = wid"
  using assms by (auto simp: rectangular_def)

lemma getPx_setPx_same:
  assumes "rectangular out h wid" "y < h" "x < wid"
  shows "getPx (setPx out y x p) y x = p"
  using rectangular_nth [OF assms(1,2)] assms(3) by (simp add: getPx_setPx)

lemma rectangular_diffuse:
  "rectangular out h wid \<Longrightarrow> rectangular (diffuse al thr wid' h' err y x n out) h wid"
  by (simp add: diffuse_def Let_def rectangular_setPx)

lemma rectangular_ed_pixel:
  assumes "rectangular out h wid"
  shows "rectangular (ed_pixel al pal neigh D s thr wid' h' y x out) h wid"
proof (cases "al ! y ! x < thr")
  case True
  then show ?thesis using assms by (simp add: ed_pixel_def)
next
  case False
  then show ?thesis
    using assms
    by (simp add: ed_pixel_def Let_def rectangular_setPx rectangular_diffuse
        fold_invariant [where P = "\<lambda>g. rectangular g h wid"])
qed

lemma rectangular_ed_row:
  assumes "rectangular out h wid"
  shows "rectangular (ed_row al pal R L D s thr serp wid' h' y out) h wid"
  unfolding ed_row_def Let_def
  by (rule fold_invariant [where P = "\<lambda>g. rectangular g h wid"])
     (simp_all add: assms rectangular_ed_pixel)

lemma getPx_ed_pixel_at:
  assumes "rectangular out h wid" "y < h" "x < wid" "\<not> al ! y ! x < thr"
    and "\<forall>n \<in> set neigh. dy n \<noteq> 0 \<or> dx n \<noteq> 0"
  shows "getPx (ed_pixel al pal neigh D s thr wid h y x out) y x
           = findClosestColorInPalette (getPx out y x) pal Lab"
proof -
  let ?newP = "findClosestColorInPalette (getPx out y x) pal Lab"
  have "getPx (fold (diffuse al thr wid h err y x) neigh (setPx out y x ?newP)) y x = ?newP" for err
  proof (rule fold_invariant [where P = "\<lambda>g. getPx g y x = ?newP"])
    show "getPx (setPx out y x ?newP) y x = ?newP"
      using assms(1-3) by (rule getPx_setPx_same)
  next
    fix n g
    assume n: "n \<in> set neigh" and g: "getPx g y x = ?newP"
    have "int y \<noteq> int y + dy n \<or> int x \<noteq> int x + dx n"
      using assms(5) n by auto
    then show "getPx (diffuse al thr wid h err y x n g) y x = ?newP"
      using g getPx_diffuse_other [of y y n x x al thr wid h err g] by auto
  qed
  then show ?thesis using assms(4) by (simp add: ed_pixel_def Let_def)
qed

lemma forward_right_nonzero: "forward_right K \<Longrightarrow> \<forall>n \<in> set K. dy n \<noteq> 0 \<or> dx n \<noteq> 0"
  by (auto simp: forward_right_def)

lemma forward_left_nonzero: "forward_left K \<Longrightarrow> \<forall>n \<in> set K. dy n \<noteq> 0 \<or> dx n \<noteq> 0"
  by (auto simp: forward_left_def)

lemma getPx_ed_pixel_later_row:
  assumes "y0 < y" "forward_right neigh \<or> forward_left neigh"
  shows "getPx (ed_pixel al pal neigh D s thr wid h y x out) y0 x0 = getPx out y0 x0"
proof (rule getPx_ed_pixel_other, rule disjI2, intro conjI ballI)
  show "(y, x) \<noteq> (y0, x0)" using assms(1) by simp
next
  fix n assume "n \<in> set neigh"
  then have "0 \<le> dy n" using assms(2) by (auto simp: forward_right_def forward_left_def)
  then show "int y0 \<noteq> int y + dy n \<or> int x0 \<noteq> int x + dx n"
    using assms(1) by simp
qed

lemma getPx_ed_pixel_later_column:
  assumes "if ltr then x0 < x \<and> forward_right neigh else x < x0 \<and> forward_left neigh"
  shows "getPx (ed_pixel al pal neigh D s thr wid h y x out) y x0 = getPx out y x0"
proof (rule getPx_ed_pixel_other, rule disjI2, intro conjI ballI)
  show "(y, x) \<noteq> (y, x0)" using assms by (auto split: if_splits)
next
  fix n assume n: "n \<in> set neigh"
  show "int y \<noteq> int y + dy n \<or> int x0 \<noteq> int x + dx n"
  proof (cases ltr)
    case True
    then have "0 < dy n \<or> (dy n = 0 \<and> 0 < dx n)" "x0 < x"
      using assms n by (auto simp: forward_right_def)
    then show ?thesis by auto
  next
    case False
    then have "0 < dy n \<or> (dy n = 0 \<and> dx n < 0)" "x < x0"
      using assms n by (auto simp: forward_left_def)
    then show ?thesis by auto
  qed
qed

lemma ed_row_at:
  assumes rect: "rectangular out h wid" and y: "y < h" and x: "x < wid"
    and vis: "\<not> al ! y ! x < thr"
    and fr: "forward_right R" and fl: "forward_left L"
  shows "rectangular (ed_row al pal R L D s thr serp wid h y out) h wid \<and>
         (\<exists>q. getPx (ed_row al pal R L D s thr serp wid h y out) y x
                = findClosestColorInPalette q pal Lab)"
proof -
  let ?ltr = "leftToRight serp y"
  let ?neigh = "if ?ltr then R else L"
  let ?P = "\<lambda>g. rectangular g h wid \<and> (\<exists>q. getPx g y x = findClosestColorInPalette q pal Lab)"
  obtain pre post where cols: "columns ?ltr wid = pre @ x # post"
    and post: "\<forall>x' \<in> set post. x' < wid \<and> (if ?ltr then x < x' else x' < x)"
    using columns_split [OF x, of ?ltr] by blast
  have nz: "\<forall>n \<in> set ?neigh. dy n \<noteq> 0 \<or> dx n \<noteq> 0"
    using fr fl forward_right_nonzero forward_left_nonzero by auto
  have "?P (fold (ed_pixel al pal ?neigh D s thr wid h y) (pre @ x # post) out)"
  proof (rule fold_point [where Q = "\<lambda>g. rectangular g h wid"])
    show "rectangular out h wid" by (rule rect)
  next
    fix x' and g :: grid assume "rectangular g h wid"
    then show "rectangular (ed_pixel al pal ?neigh D s thr wid h y x' g) h wid"
      by (rule rectangular_ed_pixel)
  next
    fix g :: grid assume g: "rectangular g h wid"
    show "?P (ed_pixel al pal ?neigh D s thr wid h y x g)"
      using rectangular_ed_pixel [OF g] getPx_ed_pixel_at [OF g y x vis nz] by blast
  next
    fix x' g assume x': "x' \<in> set post" and g: "?P g"
    have "if ?ltr then x < x' \<and> forward_right ?neigh else x' < x \<and> forward_left ?neigh"
      using post x' fr fl by auto
    then have "getPx (ed_pixel al pal ?neigh D s thr wid h y x' g) y x = getPx g y x"
      by (rule getPx_ed_pixel_later_column)
    then show "?P (ed_pixel al pal ?neigh D s thr wid h y x' g)"
      using g rectangular_ed_pixel by auto
  qed
  then show ?thesis by (simp add: ed_row_def Let_def cols)
qed

lemma getPx_ed_row_later:
  assumes "y0 < y" "forward_right R" "forward_left L"
  shows "getPx (ed_row al pal R L D s thr serp wid h y out) y0 x0 = getPx out y0 x0"
  unfolding ed_row_def Let_def
  by (rule fold_invariant [where P = "\<lambda>g. getPx g y0 x0 = getPx out y0 x0"])
     (simp_all add: assms getPx_ed_pixel_later_row)

lemma wellformed_rect:
  assumes "wellformed rgb al"
  shows "rgb \<noteq> []" and "rectangular rgb (length rgb) (length (hd rgb))"
  using assms by (auto simp: wellformed_def)

lemma errorDiffuse_quantised:
  assumes wf: "wellformed rgb al" and y: "y < length rgb" and x: "x < length (hd rgb)"
    and vis: "\<not> al ! y ! x < thr"
    and fr: "forward_right R" and fl: "forward_left L"
  shows "\<exists>out calls q. errorDiffuse rgb al pal R L D s thr cb serp = Inr (out, calls) \<and>
           getPx out y x = findClosestColorInPalette q pal Lab"
proof -
  let ?h = "length rgb" and ?w = "length (hd rgb)"
  let ?row = "ed_row al pal R L D s thr serp ?w ?h"
  let ?P = "\<lambda>g. rectangular g ?h ?w \<and> (\<exists>q. getPx g y x = findClosestColorInPalette q pal Lab)"
  have "?P (fold ?row [0..<?h] rgb)"
  proof (rule fold_rows_point [where Q = "\<lambda>g. rectangular g ?h ?w", OF y])
    show "rectangular rgb ?h ?w" by (rule wellformed_rect(2) [OF wf])
  next
    fix y' and g :: grid assume "rectangular g ?h ?w"
    then show "rectangular (?row y' g) ?h ?w" by (rule rectangular_ed_row)
  next
    fix g :: grid assume "rectangular g ?h ?w"
    then show "?P (?row y g)" using ed_row_at [OF _ y x vis fr fl] by blast
  next
    fix y' g assume "y < y'" and g: "?P g"
    then have "getPx (?row y' g) y x = getPx g y x"
      using getPx_ed_row_later [OF _ fr fl] by blast
    then show "?P (?row y' g)" using g rectangular_ed_row by auto
  qed
  then show ?thesis
    unfolding errorDiffuse_eq [OF wellformed_rect(1) [OF wf]] by blast
qed

lemma forward_left_mirror: "forward_right K \<Longrightarrow> forward_left (map mirror K)"
  by (auto simp: forward_right_def forward_left_def mirror_def)

lemma forward_kernels:
  "forward_right fsRight" "forward_left fsLeft"
  "forward_right jarvisRight" "forward_right stuckiRight" "forward_right burkesRight"
  "forward_right atkinsonRight" "forward_right sierraLiteRight" "forward_right sierra2Right"
  "forward_right sierra3Right"
  by (simp_all add: forward_right_def forward_left_def fsRight_def fsLeft_def jarvisRight_def
      stuckiRight_def burkesRight_def atkinsonRight_def sierraLiteRight_def sierra2Right_def
      sierra3Right_def)

section \<open>Scans that touch one pixel at a time\<close>

lemma local_scan_point:
  fixes f :: "nat \<Rightarrow> nat \<Rightarrow> grid \<Rightarrow> grid"
  assumes f: "\<And>y x out. f y x out =
                (if al ! y ! x < thr then out else setPx out y x (g y x (getPx out y x)))"
    and rect: "rectangular rgb h wid" and y: "y < h" and x: "x < wid"
  shows "getPx (fold (\<lambda>y'. fold (f y') [0..<wid]) [0..<h] rgb) y x =
           (if al ! y ! x < thr then getPx rgb y x else g y x (getPx rgb y x))"
proof -
  let ?v = "if al ! y ! x < thr then getPx rgb y x else g y x (getPx rgb y x)"
  let ?Q = "\<lambda>s. rectangular s h wid \<and> getPx s y x = getPx rgb y x"
  let ?P = "\<lambda>s. getPx s y x = ?v"
  have rectf: "rectangular s h wid \<Longrightarrow> rectangular (f y' x' s) h wid" for s y' x'
    by (simp add: f rectangular_setPx)
  have other: "(y', x') \<noteq> (y, x) \<Longrightarrow> getPx (f y' x' s) y x = getPx s y x" for s y' x'
    by (simp add: f getPx_setPx_other)
  have at: "?Q s \<Longrightarrow> ?P (f y x s)" for s
    using y x by (auto simp: f getPx_setPx_same)
  have Qother: "(y', x') \<noteq> (y, x) \<Longrightarrow> ?Q s \<Longrightarrow> ?Q (f y' x' s)" for s y' x'
    using rectf other by simp
  have Pother: "(y', x') \<noteq> (y, x) \<Longrightarrow> ?P s \<Longrightarrow> ?P (f y' x' s)" for s y' x'
    using other by simp
  show ?thesis
  proof (rule fold_rows_point [where Q = ?Q and P = ?P, OF y])
    show "?Q rgb" using rect by simp
  next
    fix y' s assume "y' < y" "?Q s"
    then show "?Q (fold (f y') [0..<wid] s)"
      by (intro fold_invariant [where P = ?Q]) (simp_all add: Qother)
  next
    fix s assume s: "?Q s"
    show "?P (fold (f y) [0..<wid] s)"
      unfolding upt_split [OF x]
      by (rule fold_point [where Q = ?Q and P = ?P]) (simp_all add: s Qother Pother at)
  next
    fix y' s assume "y < y'" "?P s"
    then show "?P (fold (f y') [0..<wid] s)"
      by (intro fold_invariant [where P = ?P]) (simp_all add: Pother)
  qed
qed

lemma bayer_scan_point:
  assumes "rectangular rgb h wid" "y < h" "x < wid"
  shows "getPx (fold (bayer_row al pal (intensity / 255) thr wid) [0..<h] rgb) y x =
           (if al ! y ! x < thr then getPx rgb y x else bayer_color pal intensity y x (getPx rgb y x))"
proof -
  have "bayer_row al pal (intensity / 255) thr wid
          = (\<lambda>y'. fold (bayer_pixel al pal (intensity / 255) thr y') [0..<wid])"
    by (intro ext) (simp add: bayer_row_def)
  then show ?thesis
    using local_scan_point [of "bayer_pixel al pal (intensity / 255) thr" al thr
        "\<lambda>y x p. bayer_color pal intensity y x p" rgb h wid y x] assms
    by (simp add: bayer_pixel_def bayer_color_def Let_def)
qed

lemma halftone_scan_point:
  assumes "rectangular rgb h wid" "y < h" "x < wid"
  shows "\<exists>q. getPx (fold (halftone_row al pal scale thr wid) [0..<h] rgb) y x =
           (if al ! y ! x < thr then getPx rgb y x else findClosestColorInPalette q pal Lab)"
proof -
  let ?t = "\<lambda>y x. halftoneNorm ! (y mod 8) ! (x mod 8) * scale * 255"
  let ?g = "\<lambda>y x p. findClosestColorInPalette (ch0 p + ?t y x, ch1 p + ?t y x, ch2 p + ?t y x) pal Lab"
  have "halftone_row al pal scale thr wid = (\<lambda>y'. fold (halftone_pixel al pal scale thr y') [0..<wid])"
    by (intro ext) (simp add: halftone_row_def)
  then have "getPx (fold (halftone_row al pal scale thr wid) [0..<h] rgb) y x =
           (if al ! y ! x < thr then getPx rgb y x else ?g y x (getPx rgb y x))"
    using local_scan_point [of "halftone_pixel al pal scale thr" al thr ?g rgb h wid y x] assms
    by (simp add: halftone_pixel_def Let_def)
  then show ?thesis by auto
qed

lemma nodither_scan_point:
  assumes "rectangular rgb h wid" "y < h" "x < wid"
  shows "getPx (fold (nodither_row al pal thr wid) [0..<h] rgb) y x =
           (if al ! y ! x < thr then getPx rgb y x
            else findClosestColorInPalette (getPx rgb y x) pal Lab)"
proof -
  have "nodither_row al pal thr wid = (\<lambda>y'. fold (nodither_pixel al pal thr y') [0..<wid])"
    by (intro ext) (simp add: nodither_row_def)
  then show ?thesis
    using local_scan_point [of "nodither_pixel al pal thr" al thr
        "\<lambda>y x p. findClosestColorInPalette p pal Lab" rgb h wid y x] assms
    by (simp add: nodither_pixel_def)
qed

lemma rectangular_random_pixel:
  "rectangular (fst st) h wid \<Longrightarrow> rectangular (fst (random_pixel rnd al pal rng thr y x st)) h wid"
  by (auto simp: random_pixel_def Let_def rectangular_setPx split: prod.splits)

lemma rectangular_random_row:
  assumes "rectangular (fst st) h wid"
  shows "rectangular (fst (random_row rnd al pal rng thr wid' y st)) h wid"
  unfolding random_row_def
  by (rule fold_invariant [where P = "\<lambda>t. rectangular (fst t) h wid"])
     (simp_all add: assms rectangular_random_pixel)

lemma random_scan_point:
  assumes rect: "rectangular rgb h wid" and y: "y < h" and x: "x < wid"
    and vis: "\<not> al ! y ! x < thr"
  shows "\<exists>q. getPx (fst (fold (random_row rnd al pal rng thr wid) [0..<h] (rgb, k0))) y x
               = findClosestColorInPalette q pal Lab"
proof -
  let ?Q = "\<lambda>t :: grid \<times> nat. rectangular (fst t) h wid"
  let ?P = "\<lambda>t :: grid \<times> nat. \<exists>q. getPx (fst t) y x = findClosestColorInPalette q pal Lab"
  have other: "(y', x') \<noteq> (y, x) \<Longrightarrow> ?P t \<Longrightarrow> ?P (random_pixel rnd al pal rng thr y' x' t)" for y' x' t
    using getPx_random_pixel_other [of al y x thr y' x' rnd pal rng t] by auto
  have at: "?P (random_pixel rnd al pal rng thr y x t)" if t: "?Q t" for t
  proof -
    obtain out k where tk: "t = (out, k)" by (cases t)
    let ?q = "(ch0 (getPx out y x) + (rnd k * 2 - 1) * rng,
               ch1 (getPx out y x) + (rnd (k + 1) * 2 - 1) * rng,
               ch2 (getPx out y x) + (rnd (k + 2) * 2 - 1) * rng)"
    have "getPx (fst (random_pixel rnd al pal rng thr y x t)) y x
            = findClosestColorInPalette ?q pal Lab"
      using vis y x t tk by (simp add: random_pixel_def Let_def getPx_setPx_same)
    then show ?thesis by blast
  qed
  show ?thesis
  proof (rule fold_rows_point [where Q = ?Q and P = ?P, OF y])
    show "?Q (rgb, k0)" using rect by simp
  next
    fix y' t assume "?Q t"
    then show "?Q (random_row rnd al pal rng thr wid y' t)" by (rule rectangular_random_row)
  next
    fix t assume t: "?Q t"
    show "?P (random_row rnd al pal rng thr wid y t)"
      unfolding random_row_def upt_split [OF x]
    proof (rule fold_point [where Q = ?Q and P = ?P])
      show "?Q t" by (rule t)
    next
      fix x' t' assume "?Q t'"
      then show "?Q (random_pixel rnd al pal rng thr y x' t')" by (rule rectangular_random_pixel)
    next
      fix t' assume "?Q t'"
      then show "?P (random_pixel rnd al pal rng thr y x t')" by (rule at)
    next
      fix x' t' assume "x' \<in> set [Suc x..<wid]" "?P t'"
      then show "?P (random_pixel rnd al pal rng thr y x' t')" by (intro other) auto
    qed
  next
    fix y' t assume y': "y < y'" and t: "?P t"
    show "?P (random_row rnd al pal rng thr wid y' t)"
      unfolding random_row_def
    proof (rule fold_invariant [where P = ?P])
      show "?P t" by (rule t)
    next
      fix x' t' assume "?P t'"
      moreover have "(y', x') \<noteq> (y, x)" using y' by simp
      ultimately show "?P (random_pixel rnd al pal rng thr y' x' t')" using other by blast
    qed
  qed
qed

section \<open>Palette colours in the output\<close>

lemma dither_quantised:
  assumes wf: "wellformed rgb al" and y: "y < length rgb" and x: "x < length (hd rgb)"
    and vis: "\<not> al ! y ! x < thr"
  shows "\<exists>out calls q. dither m rnd rgb al pal s intensity thr cb serp = Inr (out, calls) \<and>
           getPx out y x = findClosestColorInPalette q pal Lab"
proof -
  note ne = wellformed_rect(1) [OF wf] and rect = wellformed_rect(2) [OF wf]
  note ed = errorDiffuse_quantised [OF wf y x vis]
  note fk = forward_kernels forward_left_mirror
  show ?thesis
  proof (cases m)
    case FloydSteinberg
    then show ?thesis
      using ed [of fsRight fsLeft] fk by (simp add: dither_def applyFloydSteinbergDithering_eq)
  next
    case Jarvis
    then show ?thesis
      using ed [of jarvisRight "map mirror jarvisRight"] fk by (simp add: dither_def applyJarvisDithering_def)
  next
    case Stucki
    then show ?thesis
      using ed [of stuckiRight "map mirror stuckiRight"] fk by (simp add: dither_def applyStuckiDithering_def)
  next
    case Burkes
    then show ?thesis
      using ed [of burkesRight "map mirror burkesRight"] fk by (simp add: dither_def applyBurkesDithering_def)
  next
    case Atkinson
    then show ?thesis
      using ed [of atkinsonRight "map mirror atkinsonRight"] fk
      by (simp add: dither_def applyAtkinsonDithering_def)
  next
    case SierraLite
    then show ?thesis
      using ed [of sierraLiteRight "map mirror sierraLiteRight"] fk
      by (simp add: dither_def applySierraLiteDithering_def)
  next
    case Sierra2
    then show ?thesis
      using ed [of sierra2Right "map mirror sierra2Right"] fk
      by (simp add: dither_def applySierra2Dithering_def)
  next
    case Sierra3
    then show ?thesis
      using ed [of sierra3Right "map mirror sierra3Right"] fk
      by (simp add: dither_def applySierra3Dithering_def)
  next
    case Bayer
    have "getPx (fold (bayer_row al pal (intensity / 255) thr (length (hd rgb))) [0..<length rgb] rgb) y x
            = bayer_color pal intensity y x (getPx rgb y x)"
      using bayer_scan_point [OF rect y x] vis by simp
    then have "\<exists>q. getPx (fold (bayer_row al pal (intensity / 255) thr (length (hd rgb)))
                 [0..<length rgb] rgb) y x = findClosestColorInPalette q pal Lab"
      unfolding bayer_color_def Let_def by blast
    then show ?thesis
      using Bayer by (simp add: dither_def applyBayerDithering_eq [OF ne])
  next
    case Halftone
    then show ?thesis
      using halftone_scan_point [OF rect y x, of al pal "intensity / 255" thr] vis
      by (simp add: dither_def applyHalftoneDithering_eq [OF ne])
  next
    case Random
    then show ?thesis
      using random_scan_point [OF rect y x vis, of rnd pal intensity 0]
      by (simp add: dither_def applyRandomDithering_eq [OF ne])
  next
    case NoDither
    have "getPx (fold (nodither_row al pal thr (length (hd rgb))) [0..<length rgb] rgb) y x
            = findClosestColorInPalette (getPx rgb y x) pal Lab"
      using nodither_scan_point [OF rect y x] vis by simp
    then have "\<exists>q. getPx (fold (nodither_row al pal thr (length (hd rgb))) [0..<length rgb] rgb) y x
            = findClosestColorInPalette q pal Lab" by blast
    then show ?thesis
      using NoDither by (simp add: dither_def applyNoDithering_eq [OF ne])
  qed
qed

text \<open>
  Claim C3. For the no-dither, Bayer, halftone and random methods, on a rectangular grid
  with a parallel alpha mask and a palette with at least one entry, the output pixel at
  every position of the grid whose alpha is at or above the threshold is one of the
  palette entries.
\<close>

theorem palette_membership:
  assumes "wellformed rgbChannels alphaChannel"
    and "m \<in> {NoDither, Bayer, Halftone, Random}"
    and "palette \<noteq> []"
    and "y < length rgbChannels" and "x < length (hd rgbChannels)"
    and "alphaThreshold \<le> alphaChannel ! y ! x"
  shows "\<exists>out calls.
           dither m rnd rgbChannels alphaChannel palette strength intensity alphaThreshold progress serpentine
             = Inr (out, calls) \<and>
           getPx out y x \<in> set palette"
proof -
  have "\<not> alphaChannel ! y ! x < alphaThreshold" using assms(6) by simp
  then obtain out calls q where
    "dither m rnd rgbChannels alphaChannel palette strength intensity alphaThreshold progress serpentine
       = Inr (out, calls)"
    and "getPx out y x = findClosestColorInPalette q palette Lab"
    using dither_quantised [OF assms(1,4,5)] by blast
  then show ?thesis
    using findClosest_member [OF assms(3), of q Lab] by simp
qed

theorem palette_membership_witness:
  "wellformed [[(10, 20, 30), (200, 100, 0)]] [[255, 0]] \<and>
   Random \<in> {NoDither, Bayer, Halftone, Random} \<and>
   [(0, 0, 0), (255, 255, 255)] \<noteq> ([] :: pixel list) \<and>
   (0::nat) < length [[(10, 20, 30), (200, 100, 0) :: pixel]] \<and>
   (0::nat) < length (hd [[(10, 20, 30), (200, 100, 0) :: pixel]]) \<and>
   (128::real) \<le> [[255, 0]] ! 0 ! 0 \<and>
   (\<exists>out calls.
      dither Random (\<lambda>i. 1 / 2) [[(10, 20, 30), (200, 100, 0)]] [[255, 0]]
        [(0, 0, 0), (255, 255, 255)] 1 24 128 False False = Inr (out, calls) \<and>
      getPx out 0 0 \<in> set [(0, 0, 0), (255, 255, 255)])"
proof -
  have a: "wellformed [[(10, 20, 30), (200, 100, 0)]] [[255, 0]]"
    by (simp add: wellformed_def rectangular_def)
  have b: "Random \<in> {NoDither, Bayer, Halftone, Random}" by simp
  have c: "[(0, 0, 0), (255, 255, 255)] \<noteq> ([] :: pixel list)" by simp
  have d: "(0::nat) < length [[(10, 20, 30), (200, 100, 0) :: pixel]]" by simp
  have e: "(0::nat) < length (hd [[(10, 20, 30), (200, 100, 0) :: pixel]])" by simp
  have f: "(128::real) \<le> [[255, 0]] ! 0 ! 0" by simp
  show ?thesis
    using a b c d e f
      palette_membership [OF a b c d e f, of "\<lambda>i. 1 / 2" 1 24 False False]
    by blast
qed

text \<open>
  Claim C8. In a Bayer pass over a rectangular grid with a parallel alpha mask, the output
  pixel at a position \<open>(x, y)\<close> that passes the alpha test is \<open>bayer_color\<close> of the palette,
  the intensity, the coordinates and the input pixel at \<open>(x, y)\<close>, the result of the engine
  on that single pixel. So two passes, over any two grids and masks that agree on the
  pixel at \<open>(x, y)\<close> and both let it pass, give the same output pixel at \<open>(x, y)\<close>.
\<close>

theorem bayer_stateless:
  assumes "wellformed rgb1 alpha1" and "wellformed rgb2 alpha2"
    and "y < length rgb1" and "x < length (hd rgb1)"
    and "y < length rgb2" and "x < length (hd rgb2)"
    and "alphaThreshold1 \<le> alpha1 ! y ! x" and "alphaThreshold2 \<le> alpha2 ! y ! x"
    and "getPx rgb1 y x = getPx rgb2 y x"
  shows "\<exists>out1 calls1 out2 calls2.
           applyBayerDithering rgb1 alpha1 palette intensity alphaThreshold1 progress1 = Inr (out1, calls1) \<and>
           applyBayerDithering rgb2 alpha2 palette intensity alphaThreshold2 progress2 = Inr (out2, calls2) \<and>
           getPx out1 y x = bayer_color palette intensity y x (getPx rgb1 y x) \<and>
           getPx out2 y x = getPx out1 y x"
proof -
  note w1 = wellformed_rect [OF assms(1)] and w2 = wellformed_rect [OF assms(2)]
  have "getPx (fold (bayer_row alpha1 palette (intensity / 255) alphaThreshold1 (length (hd rgb1)))
                [0..<length rgb1] rgb1) y x
          = bayer_color palette intensity y x (getPx rgb1 y x)"
    using bayer_scan_point [OF w1(2) assms(3,4)] assms(7) by simp
  moreover have "getPx (fold (bayer_row alpha2 palette (intensity / 255) alphaThreshold2 (length (hd rgb2)))
                [0..<length rgb2] rgb2) y x
          = bayer_color palette intensity y x (getPx rgb2 y x)"
    using bayer_scan_point [OF w2(2) assms(5,6)] assms(8) by simp
  ultimately show ?thesis
    using assms(9) by (simp add: applyBayerDithering_eq [OF w1(1)] applyBayerDithering_eq [OF w2(1)])
qed

theorem bayer_stateless_witness:
  "wellformed [[(10, 20, 30), (200, 100, 0)], [(1, 2, 3), (4, 5, 6)]] [[255, 0], [255, 255]] \<and>
   wellformed [[(0, 0, 0), (9, 9, 9)], [(7, 7, 7), (4, 5, 6)]] [[0, 0], [0, 200]] \<and>
   (1::nat) < length [[(10, 20, 30), (200, 100, 0)], [(1, 2, 3), (4, 5, 6) :: pixel]] \<and>
   (1::nat) < length (hd [[(10, 20, 30), (200, 100, 0)], [(1, 2, 3), (4, 5, 6) :: pixel]]) \<and>
   (1::nat) < length [[(0, 0, 0), (9, 9, 9)], [(7, 7, 7), (4, 5, 6) :: pixel]] \<and>
   (1::nat) < length (hd [[(0, 0, 0), (9, 9, 9)], [(7, 7, 7), (4, 5, 6) :: pixel]]) \<and>
   (128::real) \<le> [[255, 0], [255, 255]] ! 1 ! 1 \<and>
   (100::real) \<le> [[0, 0], [0, 200]] ! 1 ! 1 \<and>
   getPx [[(10, 20, 30), (200, 100, 0)], [(1, 2, 3), (4, 5, 6)]] 1 1
     = getPx [[(0, 0, 0), (9, 9, 9)], [(7, 7, 7), (4, 5, 6)]] 1 1 \<and>
   (\<exists>out1 calls1 out2 calls2.
      applyBayerDithering [[(10, 20, 30), (200, 100, 0)], [(1, 2, 3), (4, 5, 6)]] [[255, 0], [255, 255]]
        [(0, 0, 0), (255, 255, 255)] 32 128 True = Inr (out1, calls1) \<and>
      applyBayerDithering [[(0, 0, 0), (9, 9, 9)], [(7, 7, 7), (4, 5, 6)]] [[0, 0], [0, 200]]
        [(0, 0, 0), (255, 255, 255)] 32 100 False = Inr (out2, calls2) \<and>
      getPx out1 1 1 = bayer_color [(0, 0, 0), (255, 255, 255)] 32 1 1
                         (getPx [[(10, 20, 30), (200, 100, 0)], [(1, 2, 3), (4, 5, 6)]] 1 1) \<and>
      getPx out2 1 1 = getPx out1 1 1)"
proof -
  let ?g1 = "[[(10, 20, 30), (200, 100, 0)], [(1, 2, 3), (4, 5, 6) :: pixel]]"
  let ?g2 = "[[(0, 0, 0), (9, 9, 9)], [(7, 7, 7), (4, 5, 6) :: pixel]]"
  let ?a1 = "[[255, 0], [255, 255 :: real]]"
  let ?a2 = "[[0, 0], [0, 200 :: real]]"
  have a: "wellformed ?g1 ?a1" by (simp add: wellformed_def rectangular_def)
  have b: "wellformed ?g2 ?a2" by (simp add: wellformed_def rectangular_def)
  have c: "(1::nat) < length ?g1" by simp
  have d: "(1::nat) < length (hd ?g1)" by simp
  have e: "(1::nat) < length ?g2" by simp
  have f: "(1::nat) < length (hd ?g2)" by simp
  have g: "(128::real) \<le> ?a1 ! 1 ! 1" by simp
  have h: "(100::real) \<le> ?a2 ! 1 ! 1" by simp
  have i: "getPx ?g1 1 1 = getPx ?g2 1 1" by (simp add: getPx_def)
  show ?thesis
    using a b c d e f g h i
      bayer_stateless [OF a b c d e f g h i, of "[(0, 0, 0), (255, 255, 255)]" 32 True False]
    by blast
qed

lemma dither_returns:
  assumes "rgb \<noteq> []"
  shows "\<exists>out calls. dither m rnd rgb al pal s intensity thr cb serp = Inr (out, calls)"
  using assms
  by (cases m)
     (simp_all add: dither_def applyFloydSteinbergDithering_eq applyJarvisDithering_def
        applyStuckiDithering_def applyBurkesDithering_def applyAtkinsonDithering_def
        applySierraLiteDithering_def applySierra2Dithering_def applySierra3Dithering_def
        errorDiffuse_eq applyBayerDithering_eq applyHalftoneDithering_eq applyRandomDithering_eq
        applyNoDithering_eq)

text \<open>
  Claim C10. With the empty palette, findClosestColorInPalette returns \<open>[0, 0, 0]\<close> (the
  function has no failing branch), and each of the twelve passes over a rectangular grid
  with a parallel alpha mask returns a grid in which every pixel at or above the alpha
  threshold is \<open>(0, 0, 0)\<close> and every pixel below it is the input pixel.
\<close>

theorem empty_palette_black:
  assumes "wellformed rgbChannels alphaChannel"
  shows "findClosestColorInPalette pixel [] mode = (0, 0, 0) \<and>
         (\<exists>out calls.
            dither m rnd rgbChannels alphaChannel [] strength intensity alphaThreshold progress serpentine
              = Inr (out, calls) \<and>
            (\<forall>y < length rgbChannels. \<forall>x < length (hd rgbChannels).
               getPx out y x = (if alphaChannel ! y ! x < alphaThreshold then getPx rgbChannels y x
                                else (0, 0, 0))))"
proof -
  obtain out calls where res:
    "dither m rnd rgbChannels alphaChannel [] strength intensity alphaThreshold progress serpentine
       = Inr (out, calls)"
    using dither_returns [OF wellformed_rect(1) [OF assms]] by blast
  have "getPx out y x = (if alphaChannel ! y ! x < alphaThreshold then getPx rgbChannels y x else (0, 0, 0))"
    if y: "y < length rgbChannels" and x: "x < length (hd rgbChannels)" for y x
  proof (cases "alphaChannel ! y ! x < alphaThreshold")
    case True
    then show ?thesis
      using dither_masked [OF assms y x True, of m rnd "[]" strength intensity progress serpentine] res
      by auto
  next
    case False
    then show ?thesis
      using dither_quantised [OF assms y x False, of m rnd "[]" strength intensity progress serpentine] res
      by (auto simp: findClosest_empty)
  qed
  then show ?thesis using res by (simp add: findClosest_empty)
qed

theorem empty_palette_black_witness:
  "wellformed [[(10, 20, 30), (200, 100, 0)]] [[255, 0]] \<and>
   findClosestColorInPalette (10, 20, 30) [] Rgb = (0, 0, 0) \<and>
   (\<exists>out calls.
      dither Stucki (\<lambda>i. 0) [[(10, 20, 30), (200, 100, 0)]] [[255, 0]] [] 1 32 128 True True
        = Inr (out, calls) \<and>
      getPx out 0 0 = (0, 0, 0) \<and> getPx out 0 1 = (200, 100, 0))"
proof -
  have a: "wellformed [[(10, 20, 30), (200, 100, 0)]] [[255, 0]]"
    by (simp add: wellformed_def rectangular_def)
  show ?thesis
    using a empty_palette_black [OF a, of "(10, 20, 30)" Rgb Stucki "\<lambda>i. 0" 1 32 128 True True]
    by (auto simp: getPx_def)
qed

section \<open>The result of the search is a first minimum and a new array\<close>

lemma closestColor_map:
  assumes "xs \<noteq> []"
  shows "f (closestColor (\<lambda>c. d (f c)) xs) = closestColor d (map f xs)"
proof -
  obtain k where k: "first_min (\<lambda>j. d (f (xs ! j))) (length xs) k"
    and ck: "closestColor (\<lambda>c. d (f c)) xs = xs ! k"
    using closestColor_first_min [OF assms, of "\<lambda>c. d (f c)"] by blast
  have ne: "map f xs \<noteq> []" using assms by simp
  obtain k' where k': "first_min (\<lambda>j. d (map f xs ! j)) (length (map f xs)) k'"
    and ck': "closestColor d (map f xs) = map f xs ! k'"
    using closestColor_first_min [OF ne, of d] by blast
  have "first_min (\<lambda>j. d (f (xs ! j))) (length xs) k'"
    using k' first_min_cong [of "length xs" "\<lambda>j. d (f (xs ! j))" "\<lambda>j. d (map f xs ! j)" k'] by simp
  then have "k' = k" using k by (rule first_min_unique)
  moreover have "k < length xs" using k by (simp add: first_min_def)
  ultimately show ?thesis using ck ck' by simp
qed

lemma findClosest_ref_value:
  assumes "refs \<noteq> []"
  shows "findClosestColorInPalette_ref s pixel refs mode
           = (s @ [findClosestColorInPalette pixel (map ((!) s) refs) mode], length s)"
proof (cases mode)
  case Rgb
  then show ?thesis
    using assms closestColor_map [OF assms, of "(!) s" "rgbDistance pixel"]
    by (simp add: findClosestColorInPalette_ref_def findClosestColorInPalette_def alloc_def)
next
  case Compuphase
  then show ?thesis
    using assms closestColor_map [OF assms, of "(!) s" "compuphaseDistance pixel"]
    by (simp add: findClosestColorInPalette_ref_def findClosestColorInPalette_def alloc_def)
next
  case Lab
  let ?labs = "map (\<lambda>c. rgbToLab (s ! c)) refs"
  have ne: "?labs \<noteq> []" using assms by simp
  have "bestIdx (rgbToLab pixel) ?labs < length refs"
    using bestIdx_first_min [OF ne, of "rgbToLab pixel"] by (simp add: first_min_def)
  moreover have "map rgbToLab (map ((!) s) refs) = ?labs" by simp
  ultimately show ?thesis
    using Lab assms
    by (simp add: findClosestColorInPalette_ref_def findClosestColorInPalette_def alloc_def Let_def
        comp_def)
qed

text \<open>
  Claim C4. For a palette with at least one entry, any pixel and each of the three modes,
  findClosestColorInPalette returns the entry at the smallest index among those at which
  the distance of the mode is minimal. On the store, where the palette is a list
  \<open>refs\<close> of allocated arrays holding the colours \<open>palette\<close>, the array returned is a new
  cell: it is none of the palette's arrays, the cells that existed before are unchanged,
  and the new cell holds the colour of the chosen entry.
\<close>

theorem findClosest_first_minimum_fresh_copy:
  assumes "palette \<noteq> []"
    and "\<forall>a \<in> set refs. a < length s"
    and "map ((!) s) refs = palette"
  shows "\<exists>k s' r.
           first_min (\<lambda>j. modeDistance mode pixel (palette ! j)) (length palette) k \<and>
           findClosestColorInPalette pixel palette mode = palette ! k \<and>
           findClosestColorInPalette_ref s pixel refs mode = (s', r) \<and>
           r \<notin> set refs \<and> length s \<le> r \<and> take (length s) s' = s \<and>
           s' ! r = palette ! k"
proof -
  obtain k where k: "first_min (\<lambda>j. modeDistance mode pixel (palette ! j)) (length palette) k"
    and v: "findClosestColorInPalette pixel palette mode = palette ! k"
    using findClosest_first_min [OF assms(1)] by blast
  have refs: "refs \<noteq> []" using assms(1,3) by auto
  have r: "findClosestColorInPalette_ref s pixel refs mode = (s @ [palette ! k], length s)"
    using findClosest_ref_value [OF refs, of s pixel mode] assms(3) v by simp
  have "length s \<notin> set refs" using assms(2) by auto
  then show ?thesis
    by (intro exI [of _ k] exI [of _ "s @ [palette ! k]"] exI [of _ "length s"])
       (simp add: k v r)
qed

theorem findClosest_first_minimum_fresh_copy_witness:
  "[(255, 0, 0), (0, 0, 0), (0, 0, 0)] \<noteq> ([] :: pixel list) \<and>
   list_all (\<lambda>a. a < length [(0, 0, 0), (255, 0, 0), (9, 9, 9), (0, 0, 0) :: pixel]) [1, 0, 3] \<and>
   map ((!) [(0, 0, 0), (255, 0, 0), (9, 9, 9), (0, 0, 0)]) [1, 0, 3]
     = [(255, 0, 0), (0, 0, 0), (0, 0, 0) :: pixel] \<and>
   (\<exists>k s' r.
      first_min (\<lambda>j. modeDistance Rgb (1, 1, 1) ([(255, 0, 0), (0, 0, 0), (0, 0, 0)] ! j))
        (length [(255, 0, 0), (0, 0, 0), (0, 0, 0) :: pixel]) k \<and>
      findClosestColorInPalette (1, 1, 1) [(255, 0, 0), (0, 0, 0), (0, 0, 0)] Rgb
        = [(255, 0, 0), (0, 0, 0), (0, 0, 0)] ! k \<and>
      findClosestColorInPalette_ref [(0, 0, 0), (255, 0, 0), (9, 9, 9), (0, 0, 0)] (1, 1, 1) [1, 0, 3] Rgb
        = (s', r) \<and>
      r \<notin> set [1, 0, 3] \<and>
      length [(0, 0, 0), (255, 0, 0), (9, 9, 9), (0, 0, 0) :: pixel] \<le> r \<and>
      take (length [(0, 0, 0), (255, 0, 0), (9, 9, 9), (0, 0, 0) :: pixel]) s'
        = [(0, 0, 0), (255, 0, 0), (9, 9, 9), (0, 0, 0)] \<and>
      s' ! r = [(255, 0, 0), (0, 0, 0), (0, 0, 0)] ! k)"
proof -
  let ?s = "[(0, 0, 0), (255, 0, 0), (9, 9, 9), (0, 0, 0) :: pixel]"
  let ?pal = "[(255, 0, 0), (0, 0, 0), (0, 0, 0) :: pixel]"
  have a: "?pal \<noteq> []" by simp
  have b: "\<forall>a \<in> set [1, 0, 3]. a < length ?s" by simp
  have b': "list_all (\<lambda>a. a < length ?s) [1, 0, 3]" by simp
  have c: "map ((!) ?s) [1, 0, 3] = ?pal" by simp
  show ?thesis
    using a b' c findClosest_first_minimum_fresh_copy [OF a b c, of Rgb "(1, 1, 1)"]
    by blast
qed

lemma tie_break_example:
  "findClosestColorInPalette (1, 1, 1) [(255, 0, 0), (0, 0, 0), (0, 0, 0)] Rgb = (0, 0, 0)"
  by (simp add: findClosestColorInPalette_def closestColor_def closest_step_def less_inf_def
      rgbDistance_def ch0_def ch1_def ch2_def)

section \<open>The compuphase distance\<close>

lemma sint32_of_int:
  assumes "- (2 ^ 31) \<le> k" "k < 2 ^ 31"
  shows "sint (word_of_int k :: 32 word) = k"
  using assms by (simp add: sint_sbintrunc' signed_take_bit_int_eq_self)

lemma toInt32_floor:
  assumes "0 \<le> v" "v \<le> 255"
  shows "toInt32 v = \<lfloor>v\<rfloor>" and "0 \<le> \<lfloor>v\<rfloor>" and "\<lfloor>v\<rfloor> \<le> 255"
proof -
  show lo: "0 \<le> \<lfloor>v\<rfloor>" using assms(1) by simp
  show hi: "\<lfloor>v\<rfloor> \<le> 255" using assms(2) by (simp add: floor_le_iff)
  show "toInt32 v = \<lfloor>v\<rfloor>"
    using assms(1) lo hi by (simp add: toInt32_def sint32_of_int)
qed

lemma sar_div:
  assumes "- (2 ^ 31) \<le> a" "a < 2 ^ 31"
  shows "sar a n = a div 2 ^ n"
  using assms by (simp add: sar_def sint_signed_drop_bit_eq sint32_of_int drop_bit_eq_div)

lemma square_bound:
  fixes d :: int
  assumes "- 255 \<le> d" "d \<le> 255"
  shows "0 \<le> d * d" and "d * d \<le> 65025"
proof -
  show "0 \<le> d * d" by simp
  have "\<bar>d\<bar> * \<bar>d\<bar> \<le> 255 * 255"
    using assms by (intro mult_mono) auto
  then show "d * d \<le> 65025" by (simp add: abs_mult_self_eq)
qed

lemma weighted_bound:
  fixes c q :: int
  assumes "0 \<le> c" "c \<le> 767" "0 \<le> q" "q \<le> 65025"
  shows "0 \<le> c * q" and "c * q < 2 ^ 31"
proof -
  show "0 \<le> c * q" using assms by simp
  have "c * q \<le> 767 * 65025"
    using assms by (intro mult_mono) auto
  then show "c * q < 2 ^ 31" by simp
qed

lemma compuphaseDistance_formula:
  assumes "in_range pixel" "in_range color"
  shows "compuphaseDistance pixel color = redmean_distance pixel color"
proof -
  define pr pg pb r g b where "pr = \<lfloor>ch0 pixel\<rfloor>" and "pg = \<lfloor>ch1 pixel\<rfloor>" and "pb = \<lfloor>ch2 pixel\<rfloor>"
    and "r = \<lfloor>ch0 color\<rfloor>" and "g = \<lfloor>ch1 color\<rfloor>" and "b = \<lfloor>ch2 color\<rfloor>"
  note d = pr_def pg_def pb_def r_def g_def b_def
  have t: "toInt32 (ch0 pixel) = pr" "toInt32 (ch1 pixel) = pg" "toInt32 (ch2 pixel) = pb"
    "toInt32 (ch0 color) = r" "toInt32 (ch1 color) = g" "toInt32 (ch2 color) = b"
    using assms by (simp_all add: in_range_def toInt32_floor(1) d)
  have bnd: "0 \<le> pr" "pr \<le> 255" "0 \<le> pb" "pb \<le> 255" "0 \<le> r" "r \<le> 255" "0 \<le> b" "b \<le> 255"
    using assms by (simp_all add: in_range_def toInt32_floor(2,3) d)
  define rmean where "rmean = (r + pr) div 2"
  have rm: "sar (r + pr) 1 = rmean"
    using bnd by (simp add: sar_div rmean_def)
  have rmb: "0 \<le> rmean" "rmean \<le> 255"
    using bnd by (simp_all add: rmean_def)
  have sq1: "0 \<le> (r - pr) * (r - pr)" "(r - pr) * (r - pr) \<le> 65025"
    using square_bound [of "r - pr"] bnd by simp_all
  have sq2: "0 \<le> (b - pb) * (b - pb)" "(b - pb) * (b - pb) \<le> 65025"
    using square_bound [of "b - pb"] bnd by simp_all
  have w1: "0 \<le> (512 + rmean) * ((r - pr) * (r - pr))" "(512 + rmean) * ((r - pr) * (r - pr)) < 2 ^ 31"
    using weighted_bound [of "512 + rmean" "(r - pr) * (r - pr)"] rmb sq1 by simp_all
  have w2: "0 \<le> (767 - rmean) * ((b - pb) * (b - pb))" "(767 - rmean) * ((b - pb) * (b - pb)) < 2 ^ 31"
    using weighted_bound [of "767 - rmean" "(b - pb) * (b - pb)"] rmb sq2 by simp_all
  have x: "sar ((512 + rmean) * (r - pr) * (r - pr)) 8 = (512 + rmean) * (r - pr)\<^sup>2 div 256"
  proof -
    have e: "(512 + rmean) * (r - pr) * (r - pr) = (512 + rmean) * ((r - pr) * (r - pr))"
      by (simp add: mult.assoc)
    have "sar ((512 + rmean) * ((r - pr) * (r - pr))) 8
                     = (512 + rmean) * ((r - pr) * (r - pr)) div 2 ^ 8"
      using w1 by (intro sar_div) simp_all
    then show ?thesis unfolding e by (simp add: power2_eq_square)
  qed
  have z: "sar ((767 - rmean) * (b - pb) * (b - pb)) 8 = (767 - rmean) * (b - pb)\<^sup>2 div 256"
  proof -
    have e: "(767 - rmean) * (b - pb) * (b - pb) = (767 - rmean) * ((b - pb) * (b - pb))"
      by (simp add: mult.assoc)
    have "sar ((767 - rmean) * ((b - pb) * (b - pb))) 8
                     = (767 - rmean) * ((b - pb) * (b - pb)) div 2 ^ 8"
      using w2 by (intro sar_div) simp_all
    then show ?thesis unfolding e by (simp add: power2_eq_square)
  qed
  have "compuphaseDistance pixel color
          = real_of_int ((512 + rmean) * (r - pr)\<^sup>2 div 256 + 4 * (g - pg) * (g - pg)
                          + (767 - rmean) * (b - pb)\<^sup>2 div 256)"
    unfolding compuphaseDistance_def Let_def t rm x z ..
  also have "\<dots> = redmean_distance pixel color"
    by (simp add: redmean_distance_def redmean_formula_def Let_def d [symmetric] rmean_def
        power2_eq_square add.commute mult.assoc)
  finally show ?thesis .
qed

text \<open>
  Claim C7. In compuphase mode, for a pixel and palette entries with channels in
  \<open>[0,255]\<close>, the distance that the search compares is the redmean formula
  \<open>(512 + rmean) dr\<^sup>2 / 256 + 4 dg\<^sup>2 + (767 - rmean) db\<^sup>2 / 256\<close> with
  \<open>rmean = (r_pixel + r_candidate) / 2\<close>, computed over the integer parts of the channels
  with integer quotients; and the entry returned is the first palette entry at which this
  quantity is minimal.
\<close>

theorem compuphase_redmean:
  assumes "in_range pixel" and "palette_in_range palette" and "palette \<noteq> []"
  shows "(\<forall>c \<in> set palette. compuphaseDistance pixel c = redmean_distance pixel c) \<and>
         (\<exists>k. first_min (\<lambda>j. redmean_distance pixel (palette ! j)) (length palette) k \<and>
               findClosestColorInPalette pixel palette Compuphase = palette ! k)"
proof -
  have eq: "compuphaseDistance pixel c = redmean_distance pixel c" if "c \<in> set palette" for c
    using assms(1,2) that by (simp add: palette_in_range_def compuphaseDistance_formula)
  obtain k where k: "first_min (\<lambda>j. modeDistance Compuphase pixel (palette ! j)) (length palette) k"
    and v: "findClosestColorInPalette pixel palette Compuphase = palette ! k"
    using findClosest_first_min [OF assms(3)] by blast
  have "first_min (\<lambda>j. redmean_distance pixel (palette ! j)) (length palette) k"
    using k first_min_cong [of "length palette" "\<lambda>j. redmean_distance pixel (palette ! j)"
        "\<lambda>j. modeDistance Compuphase pixel (palette ! j)" k] eq
    by (simp add: modeDistance_def)
  then show ?thesis using eq v by blast
qed

theorem compuphase_redmean_witness:
  "in_range (0, 0, 0) \<and> palette_in_range [(0, 0, 1), (1, 0, 0)] \<and>
   [(0, 0, 1), (1, 0, 0)] \<noteq> ([] :: pixel list) \<and>
   compuphaseDistance (0, 0, 0) (0, 0, 1) = redmean_distance (0, 0, 0) (0, 0, 1) \<and>
   compuphaseDistance (0, 0, 0) (1, 0, 0) = redmean_distance (0, 0, 0) (1, 0, 0) \<and>
   (\<exists>k. first_min (\<lambda>j. redmean_distance (0, 0, 0) ([(0, 0, 1), (1, 0, 0)] ! j))
           (length [(0, 0, 1), (1, 0, 0) :: pixel]) k \<and>
         findClosestColorInPalette (0, 0, 0) [(0, 0, 1), (1, 0, 0)] Compuphase = [(0, 0, 1), (1, 0, 0)] ! k)"
proof -
  have a: "in_range (0, 0, 0)" by (simp add: in_range_def ch0_def ch1_def ch2_def)
  have b: "palette_in_range [(0, 0, 1), (1, 0, 0)]"
    by (simp add: palette_in_range_def in_range_def ch0_def ch1_def ch2_def)
  have c: "[(0, 0, 1), (1, 0, 0)] \<noteq> ([] :: pixel list)" by simp
  show ?thesis
    using a b c compuphase_redmean [OF a b c] by simp
qed

lemma redmean_example:
  "redmean_distance (0, 0, 0) (0, 0, 1) = 2" "redmean_distance (0, 0, 0) (1, 0, 0) = 2"
  by (simp_all add: redmean_distance_def redmean_formula_def ch0_def ch1_def ch2_def)

section \<open>The Floyd-Steinberg step\<close>

lemma getPx_diffuse:
  assumes "rectangular g h wid" "y' < h" "x' < wid"
  shows "getPx (diffuse al thr wid h err y x n g) y' x' =
           (if int y' = int y + dy n \<and> int x' = int x + dx n \<and> \<not> al ! y' ! x' < thr
            then receive (getPx g y' x') err (w n) else getPx g y' x')"
proof (cases "int y' = int y + dy n \<and> int x' = int x + dx n \<and> \<not> al ! y' ! x' < thr")
  case True
  then have nx: "int x + dx n = int x'" and ny: "int y + dy n = int y'" by simp_all
  show ?thesis
    using True assms unfolding diffuse_def Let_def nx ny
    by (simp add: getPx_setPx_same receive_def clamp_def)
next
  case False
  then show ?thesis
    using getPx_diffuse_other [of y' y n x' x al thr wid h err g] by auto
qed

lemma in_range_receive: "in_range (receive p err share)"
  by (simp add: in_range_def receive_def ch0_def ch1_def ch2_def)

lemma getPx_fs_pixel_right:
  assumes rect: "rectangular out h wid" and y: "y < h" and x: "x < wid"
    and vis: "\<not> al ! y ! x < thr"
    and y': "y' < h" and x': "x' < wid"
  shows "getPx (fs_pixel al pal s thr wid h True y x out) y' x' =
           (if (y', x') = (y, x) then findClosestColorInPalette (getPx out y x) pal Lab
            else case fs_weight (int x' - int x) (int y' - int y) of
                   None \<Rightarrow> getPx out y' x'
                 | Some wt \<Rightarrow>
                     if al ! y' ! x' < thr then getPx out y' x'
                     else receive (getPx out y' x')
                            (quant_error (getPx out y x) (findClosestColorInPalette (getPx out y x) pal Lab) s)
                            (wt / 16))"
proof -
  let ?newP = "findClosestColorInPalette (getPx out y x) pal Lab"
  let ?err = "quant_error (getPx out y x) ?newP s"
  let ?d = "diffuse al thr wid h ?err y x"
  let ?n1 = "\<lparr>dx = 1, dy = 0, w = 7 / 16\<rparr>" and ?n2 = "\<lparr>dx = -1, dy = 1, w = 3 / 16\<rparr>"
  let ?n3 = "\<lparr>dx = 0, dy = 1, w = 5 / 16\<rparr>" and ?n4 = "\<lparr>dx = 1, dy = 1, w = 1 / 16\<rparr>"
  let ?g0 = "setPx out y x ?newP"
  let ?g1 = "?d ?n1 ?g0"
  let ?g2 = "?d ?n2 ?g1"
  let ?g3 = "?d ?n3 ?g2"
  have r0: "rectangular ?g0 h wid" using rect by (rule rectangular_setPx)
  have r1: "rectangular ?g1 h wid" using r0 by (rule rectangular_diffuse)
  have r2: "rectangular ?g2 h wid" using r1 by (rule rectangular_diffuse)
  have r3: "rectangular ?g3 h wid" using r2 by (rule rectangular_diffuse)
  have unfold: "fs_pixel al pal s thr wid h True y x out = ?d ?n4 ?g3"
    using vis by (simp add: fs_pixel_def Let_def fsRight_def quant_error_def)
  have p0: "getPx ?g0 y' x' = (if (y', x') = (y, x) then ?newP else getPx out y' x')"
    using rect y x by (auto simp: getPx_setPx_same getPx_setPx_other)
  note steps = getPx_diffuse [OF r3 y' x'] getPx_diffuse [OF r2 y' x']
    getPx_diffuse [OF r1 y' x'] getPx_diffuse [OF r0 y' x']
  show ?thesis
    unfolding unfold steps p0
    by (auto simp: fs_weight_def)
qed


text \<open>
  Claim C5. In applyFloydSteinbergDithering, on a row scanned left to right, the step at a
  pixel \<open>(x, y)\<close> at or above the alpha threshold changes a rectangular \<open>h \<times> w\<close> working
  grid, with a mask of the same shape, as follows. With \<open>chosen\<close> the palette colour
  nearest to the current colour of the pixel and the error \<open>(original - chosen) \<times> strength\<close>
  per channel: the pixel becomes \<open>chosen\<close>; a pixel of the grid at offset \<open>(1,0)\<close>,
  \<open>(-1,1)\<close>, \<open>(0,1)\<close> or \<open>(1,1)\<close> whose alpha is at or above the threshold becomes
  \<open>min (max (colour + error \<times> w / 16) 0) 255\<close> per channel, with \<open>w = 7, 3, 5, 1\<close>, so that
  each of its channels lies in \<open>[0,255]\<close>; every other pixel of the grid, a target below
  the threshold included, keeps its colour, and the grid keeps its shape, so the share
  of a target outside the grid goes nowhere.
\<close>

theorem floyd_steinberg_step:
  assumes rect: "rectangular out h wid" and mask: "rectangular alphaChannel h wid"
    and y: "y < h" and x: "x < wid"
    and vis: "alphaThreshold \<le> alphaChannel ! y ! x"
    and ltr: "leftToRight serpentine y"
    and y': "y' < h" and x': "x' < wid"
  shows "rectangular (fs_pixel alphaChannel palette strength alphaThreshold wid h (leftToRight serpentine y) y x out) h wid \<and>
         getPx (fs_pixel alphaChannel palette strength alphaThreshold wid h (leftToRight serpentine y) y x out) y' x' =
           (if (y', x') = (y, x) then findClosestColorInPalette (getPx out y x) palette Lab
            else case fs_weight (int x' - int x) (int y' - int y) of
                   None \<Rightarrow> getPx out y' x'
                 | Some wt \<Rightarrow>
                     if alphaChannel ! y' ! x' < alphaThreshold then getPx out y' x'
                     else (let p = getPx out y' x';
                               err = quant_error (getPx out y x)
                                       (findClosestColorInPalette (getPx out y x) palette Lab) strength
                           in (min (max (ch0 p + ch0 err * (wt / 16)) 0) 255,
                               min (max (ch1 p + ch1 err * (wt / 16)) 0) 255,
                               min (max (ch2 p + ch2 err * (wt / 16)) 0) 255))) \<and>
         ((y', x') \<noteq> (y, x) \<and> fs_weight (int x' - int x) (int y' - int y) \<noteq> None \<and>
          alphaThreshold \<le> alphaChannel ! y' ! x' \<longrightarrow>
          in_range (getPx (fs_pixel alphaChannel palette strength alphaThreshold wid h
                             (leftToRight serpentine y) y x out) y' x'))"
proof -
  let ?out' = "fs_pixel alphaChannel palette strength alphaThreshold wid h True y x out"
  let ?err = "quant_error (getPx out y x) (findClosestColorInPalette (getPx out y x) palette Lab) strength"
  have v: "\<not> alphaChannel ! y ! x < alphaThreshold" using vis by simp
  have shape: "rectangular ?out' h wid"
    using rect by (simp add: fs_pixel_eq rectangular_ed_pixel)
  have val: "getPx ?out' y' x' =
           (if (y', x') = (y, x) then findClosestColorInPalette (getPx out y x) palette Lab
            else case fs_weight (int x' - int x) (int y' - int y) of
                   None \<Rightarrow> getPx out y' x'
                 | Some wt \<Rightarrow>
                     if alphaChannel ! y' ! x' < alphaThreshold then getPx out y' x'
                     else receive (getPx out y' x') ?err (wt / 16))"
    by (rule getPx_fs_pixel_right [OF rect y x v y' x'])
  have bound: "in_range (getPx ?out' y' x')"
    if ne: "(y', x') \<noteq> (y, x)" and wk: "fs_weight (int x' - int x) (int y' - int y) \<noteq> None"
      and al: "alphaThreshold \<le> alphaChannel ! y' ! x'"
  proof -
    obtain wt where "fs_weight (int x' - int x) (int y' - int y) = Some wt"
      using wk by blast
    then have "getPx ?out' y' x' = receive (getPx out y' x') ?err (wt / 16)"
      using val ne al by auto
    then show ?thesis by (simp add: in_range_receive)
  qed
  have val': "getPx ?out' y' x' =
           (if (y', x') = (y, x) then findClosestColorInPalette (getPx out y x) palette Lab
            else case fs_weight (int x' - int x) (int y' - int y) of
                   None \<Rightarrow> getPx out y' x'
                 | Some wt \<Rightarrow>
                     if alphaChannel ! y' ! x' < alphaThreshold then getPx out y' x'
                     else (let p = getPx out y' x'; err = ?err
                           in (min (max (ch0 p + ch0 err * (wt / 16)) 0) 255,
                               min (max (ch1 p + ch1 err * (wt / 16)) 0) 255,
                               min (max (ch2 p + ch2 err * (wt / 16)) 0) 255)))"
    unfolding val receive_def Let_def by (rule refl)
  have l: "leftToRight serpentine y = True" using ltr by simp
  show ?thesis
    unfolding l using shape val' bound by blast
qed

theorem floyd_steinberg_step_witness:
  "rectangular [[(100, 100, 100), (50, 50, 50)], [(10, 10, 10), (20, 20, 20) :: pixel]] 2 2 \<and>
   rectangular [[255, 255], [0, 255 :: real]] 2 2 \<and>
   (0::nat) < 2 \<and>
   (128::real) \<le> [[255, 255], [0, 255]] ! 0 ! 0 \<and>
   leftToRight True 0 \<and> (1::nat) < 2 \<and>
   rectangular (fs_pixel [[255, 255], [0, 255]] [(0, 0, 0), (255, 255, 255)] 40 128 2 2 (leftToRight True 0) 0 0
      [[(100, 100, 100), (50, 50, 50)], [(10, 10, 10), (20, 20, 20)]]) 2 2 \<and>
   getPx (fs_pixel [[255, 255], [0, 255]] [(0, 0, 0), (255, 255, 255)] 40 128 2 2 (leftToRight True 0) 0 0
      [[(100, 100, 100), (50, 50, 50)], [(10, 10, 10), (20, 20, 20)]]) 0 1 =
     (let p = (50, 50, 50);
          err = quant_error (100, 100, 100)
                  (findClosestColorInPalette (100, 100, 100) [(0, 0, 0), (255, 255, 255)] Lab) 40
      in (min (max (ch0 p + ch0 err * (7 / 16)) 0) 255,
          min (max (ch1 p + ch1 err * (7 / 16)) 0) 255,
          min (max (ch2 p + ch2 err * (7 / 16)) 0) 255)) \<and>
   in_range (getPx (fs_pixel [[255, 255], [0, 255]] [(0, 0, 0), (255, 255, 255)] 40 128 2 2
                      (leftToRight True 0) 0 0
                      [[(100, 100, 100), (50, 50, 50)], [(10, 10, 10), (20, 20, 20)]]) 0 1) \<and>
   getPx (fs_pixel [[255, 255], [0, 255]] [(0, 0, 0), (255, 255, 255)] 40 128 2 2 (leftToRight True 0) 0 0
      [[(100, 100, 100), (50, 50, 50)], [(10, 10, 10), (20, 20, 20)]]) 1 0 = (10, 10, 10)"
proof -
  let ?g = "[[(100, 100, 100), (50, 50, 50)], [(10, 10, 10), (20, 20, 20) :: pixel]]"
  let ?a = "[[255, 255], [0, 255 :: real]]"
  have a: "rectangular ?g 2 2" by (simp add: rectangular_def)
  have m: "rectangular ?a 2 2" by (simp add: rectangular_def)
  have b: "(0::nat) < 2" by simp
  have c: "(128::real) \<le> ?a ! 0 ! 0" by simp
  have d: "leftToRight True 0" by (simp add: leftToRight_def)
  have e: "(1::nat) < 2" by simp
  have f: "fs_weight (int 1 - int 0) (int 0 - int 0) = Some 7"
    "fs_weight (int 0 - int 0) (int 1 - int 0) = Some 5" by (simp_all add: fs_weight_def)
  have g: "getPx ?g 0 0 = (100, 100, 100)" "getPx ?g 0 1 = (50, 50, 50)" "getPx ?g 1 0 = (10, 10, 10)"
    by (simp_all add: getPx_def)
  have h: "\<not> ?a ! 0 ! 1 < (128::real)" "(128::real) \<le> ?a ! 0 ! 1" "?a ! 1 ! 0 < (128::real)" by simp_all
  have i: "(0::nat, 1::nat) \<noteq> (0, 0)" "(1::nat, 0::nat) \<noteq> (0, 0)" by simp_all
  note t1 = floyd_steinberg_step [OF a m b b c d b e, of "[(0, 0, 0), (255, 255, 255)]" 40]
  note t2 = floyd_steinberg_step [OF a m b b c d e b, of "[(0, 0, 0), (255, 255, 255)]" 40]
  have r1: "getPx (fs_pixel ?a [(0, 0, 0), (255, 255, 255)] 40 128 2 2 (leftToRight True 0) 0 0 ?g) 0 1 =
     (let p = (50, 50, 50);
          err = quant_error (100, 100, 100)
                  (findClosestColorInPalette (100, 100, 100) [(0, 0, 0), (255, 255, 255)] Lab) 40
      in (min (max (ch0 p + ch0 err * (7 / 16)) 0) 255,
          min (max (ch1 p + ch1 err * (7 / 16)) 0) 255,
          min (max (ch2 p + ch2 err * (7 / 16)) 0) 255))"
    using t1 unfolding f g by (simp only: i h if_False option.case simp_thms)
  have r2: "in_range (getPx (fs_pixel ?a [(0, 0, 0), (255, 255, 255)] 40 128 2 2 (leftToRight True 0) 0 0 ?g) 0 1)"
    using t1 i(1) h(2) f(1) by blast
  have r3: "getPx (fs_pixel ?a [(0, 0, 0), (255, 255, 255)] 40 128 2 2 (leftToRight True 0) 0 0 ?g) 1 0 = (10, 10, 10)"
    using t2 unfolding f g by (simp only: i h if_False if_True option.case simp_thms)
  have r0: "rectangular (fs_pixel ?a [(0, 0, 0), (255, 255, 255)] 40 128 2 2 (leftToRight True 0) 0 0 ?g) 2 2"
    using t1 by blast
  show ?thesis
    using a m b c d e r0 r1 r2 r3 by blast
qed

section \<open>Serpentine scanning and progress reports\<close>

lemma leftToRight_iff: "leftToRight serpentine y \<longleftrightarrow> \<not> serpentine \<or> even y"
  by (simp add: leftToRight_def even_iff_mod_2_eq_zero)

lemma ed_row_serpentine:
  "ed_row al pal K (map mirror K) D s thr serp wid h = serpentine_row al pal K D s thr serp wid h"
  by (intro ext) (simp add: ed_row_def serpentine_row_def Let_def columns_def leftToRight_iff)

lemma fsLeft_mirror: "fsLeft = map mirror fsRight"
  by (simp add: fsLeft_def fsRight_def mirror_def)

lemma errorDiffuse_serpentine:
  assumes "rgb \<noteq> []"
  shows "\<exists>calls. errorDiffuse rgb al pal K (map mirror K) D s thr cb serp =
           Inr (fold (serpentine_row al pal K D s thr serp (length (hd rgb)) (length rgb))
                  [0..<length rgb] rgb, calls)"
  by (simp add: errorDiffuse_eq [OF assms] ed_row_serpentine)

text \<open>
  Claim C6. Each of the eight error-diffusion methods, on a rectangular grid with a
  parallel alpha mask, returns the grid obtained by running \<open>serpentine_row\<close> with the method's left-to-right
  kernel over the rows \<open>0, \<dots>, h - 1\<close>: row \<open>y\<close> is scanned left to right exactly when
  \<open>serpentine\<close> is false or \<open>y\<close> is even, and right to left otherwise, and a right-to-left
  row uses that kernel with every \<open>\<Delta>x\<close> negated, \<open>\<Delta>y\<close> and the weights unchanged.
\<close>

theorem serpentine_scan:
  assumes "m \<in> error_diffusion_methods" and "wellformed rgbChannels alphaChannel"
  shows "(leftToRight serpentine y \<longleftrightarrow> \<not> serpentine \<or> even y) \<and>
         (\<exists>calls.
            dither m rnd rgbChannels alphaChannel palette strength intensity alphaThreshold progress serpentine =
              Inr (fold (serpentine_row alphaChannel palette (kernel_of m) (denom_of m) strength
                           alphaThreshold serpentine (length (hd rgbChannels)) (length rgbChannels))
                     [0..<length rgbChannels] rgbChannels, calls))"
proof -
  note ed = errorDiffuse_serpentine [OF wellformed_rect(1) [OF assms(2)]]
  consider "m = FloydSteinberg" | "m = Jarvis" | "m = Stucki" | "m = Burkes" | "m = Atkinson"
    | "m = SierraLite" | "m = Sierra2" | "m = Sierra3"
    using assms(1) by (auto simp: error_diffusion_methods_def)
  then have "\<exists>calls.
            dither m rnd rgbChannels alphaChannel palette strength intensity alphaThreshold progress serpentine =
              Inr (fold (serpentine_row alphaChannel palette (kernel_of m) (denom_of m) strength
                           alphaThreshold serpentine (length (hd rgbChannels)) (length rgbChannels))
                     [0..<length rgbChannels] rgbChannels, calls)"
  proof cases
    case 1
    then show ?thesis
      using ed [of alphaChannel palette fsRight 1]
      by (simp add: dither_def applyFloydSteinbergDithering_eq fsLeft_mirror kernel_of_def denom_of_def)
  next
    case 2
    then show ?thesis
      using ed [of alphaChannel palette jarvisRight 48]
      by (simp add: dither_def applyJarvisDithering_def kernel_of_def denom_of_def)
  next
    case 3
    then show ?thesis
      using ed [of alphaChannel palette stuckiRight 42]
      by (simp add: dither_def applyStuckiDithering_def kernel_of_def denom_of_def)
  next
    case 4
    then show ?thesis
      using ed [of alphaChannel palette burkesRight 32]
      by (simp add: dither_def applyBurkesDithering_def kernel_of_def denom_of_def)
  next
    case 5
    then show ?thesis
      using ed [of alphaChannel palette atkinsonRight 8]
      by (simp add: dither_def applyAtkinsonDithering_def kernel_of_def denom_of_def)
  next
    case 6
    then show ?thesis
      using ed [of alphaChannel palette sierraLiteRight 4]
      by (simp add: dither_def applySierraLiteDithering_def kernel_of_def denom_of_def)
  next
    case 7
    then show ?thesis
      using ed [of alphaChannel palette sierra2Right 16]
      by (simp add: dither_def applySierra2Dithering_def kernel_of_def denom_of_def)
  next
    case 8
    then show ?thesis
      using ed [of alphaChannel palette sierra3Right 32]
      by (simp add: dither_def applySierra3Dithering_def kernel_of_def denom_of_def)
  qed
  then show ?thesis using leftToRight_iff by blast
qed

theorem serpentine_scan_witness:
  "Jarvis \<in> error_diffusion_methods \<and>
   wellformed [[(10, 20, 30), (40, 50, 60), (70, 80, 90)], [(1, 2, 3), (4, 5, 6), (7, 8, 9)]]
     [[255, 255, 255], [255, 0, 255]] \<and>
   (leftToRight True 1 \<longleftrightarrow> \<not> True \<or> even (1::nat)) \<and>
   (\<exists>calls.
      dither Jarvis (\<lambda>i. 0) [[(10, 20, 30), (40, 50, 60), (70, 80, 90)], [(1, 2, 3), (4, 5, 6), (7, 8, 9)]]
        [[255, 255, 255], [255, 0, 255]] [(0, 0, 0), (255, 255, 255)] 1 32 128 True True =
        Inr (fold (serpentine_row [[255, 255, 255], [255, 0, 255]] [(0, 0, 0), (255, 255, 255)]
                     (kernel_of Jarvis) (denom_of Jarvis) 1 128 True
                     (length (hd [[(10, 20, 30), (40, 50, 60), (70, 80, 90)],
                                  [(1, 2, 3), (4, 5, 6), (7, 8, 9) :: pixel]]))
                     (length [[(10, 20, 30), (40, 50, 60), (70, 80, 90)],
                              [(1, 2, 3), (4, 5, 6), (7, 8, 9) :: pixel]]))
               [0..<length [[(10, 20, 30), (40, 50, 60), (70, 80, 90)],
                            [(1, 2, 3), (4, 5, 6), (7, 8, 9) :: pixel]]]
               [[(10, 20, 30), (40, 50, 60), (70, 80, 90)], [(1, 2, 3), (4, 5, 6), (7, 8, 9)]], calls)) \<and>
   (\<forall>out. serpentine_row [[255, 255, 255], [255, 0, 255]] [(0, 0, 0), (255, 255, 255)]
             (kernel_of Jarvis) (denom_of Jarvis) 1 128 True 3 2 0 out =
           fold (ed_pixel [[255, 255, 255], [255, 0, 255]] [(0, 0, 0), (255, 255, 255)]
                   jarvisRight 48 1 128 3 2 0) [0, 1, 2] out) \<and>
   (\<forall>out. serpentine_row [[255, 255, 255], [255, 0, 255]] [(0, 0, 0), (255, 255, 255)]
             (kernel_of Jarvis) (denom_of Jarvis) 1 128 True 3 2 1 out =
           fold (ed_pixel [[255, 255, 255], [255, 0, 255]] [(0, 0, 0), (255, 255, 255)]
                   (map mirror jarvisRight) 48 1 128 3 2 1) [2, 1, 0] out) \<and>
   hd (map mirror jarvisRight) = \<lparr>dx = - 1, dy = 0, w = 7\<rparr>"
proof -
  let ?g = "[[(10, 20, 30), (40, 50, 60), (70, 80, 90)], [(1, 2, 3), (4, 5, 6), (7, 8, 9) :: pixel]]"
  let ?a = "[[255, 255, 255], [255, 0, 255 :: real]]"
  have a: "Jarvis \<in> error_diffusion_methods" by (simp add: error_diffusion_methods_def)
  have b: "wellformed ?g ?a" by (simp add: wellformed_def rectangular_def)
  have u3: "[0..<3] = [0, 1, 2]" by code_simp
  have r0: "\<forall>out. serpentine_row ?a [(0, 0, 0), (255, 255, 255)]
             (kernel_of Jarvis) (denom_of Jarvis) 1 128 True 3 2 0 out =
           fold (ed_pixel ?a [(0, 0, 0), (255, 255, 255)] jarvisRight 48 1 128 3 2 0) [0, 1, 2] out"
    by (simp add: serpentine_row_def kernel_of_def denom_of_def u3)
  have r1: "\<forall>out. serpentine_row ?a [(0, 0, 0), (255, 255, 255)]
             (kernel_of Jarvis) (denom_of Jarvis) 1 128 True 3 2 1 out =
           fold (ed_pixel ?a [(0, 0, 0), (255, 255, 255)] (map mirror jarvisRight) 48 1 128 3 2 1)
             [2, 1, 0] out"
    by (simp add: serpentine_row_def kernel_of_def denom_of_def u3)
  have k: "hd (map mirror jarvisRight) = \<lparr>dx = - 1, dy = 0, w = 7\<rparr>"
    by (simp add: jarvisRight_def mirror_def)
  show ?thesis
    using a b r0 r1 k serpentine_scan [OF a b, of True 1 "\<lambda>i. 0" "[(0, 0, 0), (255, 255, 255)]" 1 32 128 True]
    by blast
qed

text \<open>
  The calls of the progress callback of every method: the rows that report are those
  with \<open>y mod max(1, floor(h / 50)) = 0\<close> in the error-diffusion and no-dither passes,
  those with \<open>y mod 25 = 0\<close> in the Bayer and halftone passes, and none in the random pass.
\<close>

lemma progress_calls_of_methods:
  assumes "rgb \<noteq> []"
  shows "\<exists>out. dither m rnd rgb al pal s intensity thr cb serp =
           Inr (out, progress_calls
                       (if m \<in> {Bayer, Halftone} then (\<lambda>y. y mod 25 = 0)
                        else if m = Random then (\<lambda>y. False)
                        else (\<lambda>y. y mod max 1 (length rgb div 50) = 0))
                       cb (length rgb))"
  using assms
  by (cases m)
     (simp_all add: dither_def applyFloydSteinbergDithering_eq applyJarvisDithering_def
        applyStuckiDithering_def applyBurkesDithering_def applyAtkinsonDithering_def
        applySierraLiteDithering_def applySierra2Dithering_def applySierra3Dithering_def
        errorDiffuse_eq applyBayerDithering_eq applyHalftoneDithering_eq applyRandomDithering_eq
        applyNoDithering_eq)

text \<open>
  Claim C9 at a grid of two rows with a callback. The claim expects the random pass to
  report row \<open>0\<close> (as \<open>0 mod 25 = 0\<close>) with \<open>(0 + 1) / 2\<close> and then to make the final
  call, as the Bayer pass does on the same input. The random pass makes the final call
  only.
\<close>

theorem random_pass_reports_no_row:
  "(\<exists>out. applyRandomDithering rnd [[(10, 20, 30)], [(40, 50, 60)]] [[255], [255]]
             [(0, 0, 0), (255, 255, 255)] 24 128 True = Inr (out, [1])) \<and>
   (\<exists>out. applyBayerDithering [[(10, 20, 30)], [(40, 50, 60)]] [[255], [255]]
             [(0, 0, 0), (255, 255, 255)] 24 128 True = Inr (out, [1 / 2, 1]))"
  by (simp add: applyRandomDithering_eq applyBayerDithering_eq progress_calls_def upt_rec [of 0]
      upt_rec [of 1] upt_rec [of 2])

end
